theory Spec2Isabelle
  imports Main "HOL-Library.Word" "HOL-Library.AList"
begin

section \<open>The session of the packet analyzer (paperfilter/session.cpp)\<close>

text \<open>
  The session owns the packet queue, the packet store, the dissector threads, the named
  filter groups, the stream dispatcher and the frame source, and it delivers two coalesced
  signals (status, log) to the host. The embedding below follows \<^verbatim>\<open>session.cpp\<close>
  statement by statement. Calls into collaborators whose code lives in other files are
  recorded, in program order, in the field \<open>trace\<close> of the state.
\<close>

subsection \<open>Machine integers and strings\<close>

type_synonym uint32 = "32 word"

text \<open>A C++ \<^verbatim>\<open>int\<close>: 32 bits, read in two's complement by \<open>sint\<close>, compared by \<open><s\<close>.\<close>

type_synonym cint = "32 word"

type_synonym bytes = "8 word list"

text \<open>\<^verbatim>\<open>std::max(a, b)\<close> on \<^verbatim>\<open>int\<close>: \<^verbatim>\<open>(a < b) ? b : a\<close>.\<close>

definition std_max :: "cint \<Rightarrow> cint \<Rightarrow> cint" where
  "std_max a b = (if a <s b then b else a)"

text \<open>
  \<^verbatim>\<open>std::string::c_str()\<close> handed to a \<^verbatim>\<open>char const*\<close> parameter: the receiver
  sees the characters up to the first NUL.
\<close>

definition c_str :: "string \<Rightarrow> string" where
  "c_str s = takeWhile (\<lambda>c. c \<noteq> CHR 0x00) s"

text \<open>
  The loop \<^verbatim>\<open>for (int i = 0; i < n; ++i) v.emplace_back(new T(ctx))\<close>, started at
  \<open>i\<close> with the vector \<open>v\<close>.
\<close>

function for_emplace :: "cint \<Rightarrow> cint \<Rightarrow> 'a \<Rightarrow> 'a list \<Rightarrow> 'a list" where
  "for_emplace i n x v = (if i <s n then for_emplace (i + 1) n x (v @ [x]) else v)"
  by pat_completeness auto

subsection \<open>Packets, queue, store and result sets\<close>

record Layer =
  layer_ns :: string
  layer_name :: string
  layer_payload :: bytes

text \<open>
  Modelled from the spec: \<^verbatim>\<open>Packet\<close> (packet.hpp is not part of the sources at hand).
  A packet owns an ordered list of layers and the captured bytes; \<^verbatim>\<open>addLayer\<close>
  appends to the list.
\<close>

record Packet =
  payload :: bytes
  layers :: "Layer list"

definition Packet_addLayer :: "Layer \<Rightarrow> Packet \<Rightarrow> Packet" where
  "Packet_addLayer l pkt = pkt\<lparr>layers := layers pkt @ [l]\<rparr>"

text \<open>
  Modelled from the spec: \<^verbatim>\<open>PacketQueue\<close> (packet_queue.hpp), a closable FIFO.
  \<^verbatim>\<open>push\<close> never fails while the queue is open and is a silent no-op after
  \<^verbatim>\<open>close\<close>; \<^verbatim>\<open>close\<close> is idempotent; \<^verbatim>\<open>pop\<close> hands out the oldest
  packet, signals closed once the queue is closed, and otherwise blocks.
\<close>

record PacketQueue =
  items :: "Packet list"
  closed :: bool

definition PacketQueue_push :: "Packet \<Rightarrow> PacketQueue \<Rightarrow> PacketQueue" where
  "PacketQueue_push pkt q = (if closed q then q else q\<lparr>items := items q @ [pkt]\<rparr>)"

definition PacketQueue_close :: "PacketQueue \<Rightarrow> PacketQueue" where
  "PacketQueue_close q = q\<lparr>closed := True\<rparr>"

datatype pop_result = Popped Packet PacketQueue | ClosedSignal | Blocked

definition PacketQueue_pop :: "PacketQueue \<Rightarrow> pop_result" where
  "PacketQueue_pop q =
     (if closed q then ClosedSignal
      else case items q of [] \<Rightarrow> Blocked | p # ps \<Rightarrow> Popped p (q\<lparr>items := ps\<rparr>))"

text \<open>
  Modelled from the spec: the loop of a \<^verbatim>\<open>DissectorThread\<close> worker
  (dissector_thread.hpp): pull one packet, dissect it, publish it, and exit when
  \<^verbatim>\<open>pop\<close> signals closed. The result is the list of packets the worker took and
  how the loop ended: it exited, or it is parked in \<^verbatim>\<open>pop\<close> on an open, empty queue.
\<close>

datatype worker_end = Exited | Parked

function DissectorThread_loop :: "PacketQueue \<Rightarrow> Packet list \<Rightarrow> Packet list \<times> worker_end" where
  "DissectorThread_loop q done =
     (case PacketQueue_pop q of
        ClosedSignal \<Rightarrow> (done, Exited)
      | Blocked \<Rightarrow> (done, Parked)
      | Popped p q' \<Rightarrow> DissectorThread_loop q' (done @ [p]))"
  by pat_completeness auto
termination
  by (relation "measure (\<lambda>(q, done). length (items q))")
     (auto simp: PacketQueue_pop_def split: if_splits list.splits)

declare DissectorThread_loop.simps [simp del]

text \<open>
  Modelled from the spec: \<^verbatim>\<open>PacketStore\<close> (packet_store.hpp), append-only, with
  dense sequence numbers from 1, so that \<^verbatim>\<open>maxSeq()\<close> is the number of packets.
\<close>

type_synonym PacketStore = "Packet list"

definition PacketStore_maxSeq :: "PacketStore \<Rightarrow> uint32" where
  "PacketStore_maxSeq st = of_nat (length st)"

definition PacketStore_insert :: "Packet \<Rightarrow> PacketStore \<Rightarrow> PacketStore" where
  "PacketStore_insert pkt st = st @ [pkt]"

text \<open>
  Modelled from the spec: the result set of a filter group (the member
  \<^verbatim>\<open>packets\<close> of \<^verbatim>\<open>FilterThread::Context\<close>, filter_thread.hpp): an ordered set
  of sequence numbers, with \<^verbatim>\<open>insert\<close>, the range read \<^verbatim>\<open>get(start, end)\<close>
  (start included, end excluded) and \<^verbatim>\<open>size()\<close>. It never removes entries.
\<close>

type_synonym SequenceSet = "uint32 list"

definition SequenceSet_insert :: "uint32 \<Rightarrow> SequenceSet \<Rightarrow> SequenceSet" where
  "SequenceSet_insert s xs = (if s \<in> set xs then xs else insort s xs)"

definition SequenceSet_get :: "SequenceSet \<Rightarrow> uint32 \<Rightarrow> uint32 \<Rightarrow> uint32 list" where
  "SequenceSet_get xs start end = filter (\<lambda>s. start \<le> s \<and> s < end) xs"

definition SequenceSet_size :: "SequenceSet \<Rightarrow> uint32" where
  "SequenceSet_size xs = of_nat (length xs)"

subsection \<open>Log messages\<close>

datatype Level = LEVEL_DEBUG | LEVEL_INFO | LEVEL_WARN | LEVEL_ERROR

text \<open>
  The fields of \<^verbatim>\<open>LogMessage\<close> that the log handler reads. The positions are negative
  when they are unknown.
\<close>

record LogMessage =
  level :: Level
  message :: string
  domain :: string
  resourceName :: string
  sourceLine :: string
  lineNumber :: int
  startPosition :: int
  endPosition :: int
  startColumn :: int
  endColumn :: int

text \<open>\<^verbatim>\<open>const char *levels[] = {"debug", "info", "warn", "error"}\<close>, indexed by the level.\<close>

fun levels :: "Level \<Rightarrow> string" where
  "levels LEVEL_DEBUG = ''debug''"
| "levels LEVEL_INFO = ''info''"
| "levels LEVEL_WARN = ''warn''"
| "levels LEVEL_ERROR = ''error''"

text \<open>The object the log callback receives; a property that is not set is \<open>None\<close>.\<close>

record LogObject =
  obj_level :: string
  obj_message :: string
  obj_domain :: string
  obj_resourceName :: string
  obj_sourceLine :: string
  obj_lineNumber :: "int option"
  obj_startPosition :: "int option"
  obj_endPosition :: "int option"
  obj_startColumn :: "int option"
  obj_endColumn :: "int option"

definition set_if_nonneg :: "int \<Rightarrow> int option" where
  "set_if_nonneg x = (if x \<ge> 0 then Some x else None)"

definition log_object :: "LogMessage \<Rightarrow> LogObject" where
  "log_object msg =
     \<lparr>obj_level = levels (level msg),
      obj_message = message msg,
      obj_domain = domain msg,
      obj_resourceName = resourceName msg,
      obj_sourceLine = sourceLine msg,
      obj_lineNumber = set_if_nonneg (lineNumber msg),
      obj_startPosition = set_if_nonneg (startPosition msg),
      obj_endPosition = set_if_nonneg (endPosition msg),
      obj_startColumn = set_if_nonneg (startColumn msg),
      obj_endColumn = set_if_nonneg (endColumn msg)\<rparr>"

subsection \<open>The state of a session\<close>

datatype js_function = JsFunction nat

datatype js_value = JsEmpty | JsPrimitive | JsObject nat

datatype Dissector = Dissector nat

record DissectorThread_Context =
  diss_dissectors :: "Dissector list"

datatype DissectorThread = DissectorThread DissectorThread_Context

record StreamDispatcher_Context =
  sd_threads :: cint
  sd_dissectors :: "Dissector list"

datatype StreamDispatcher = StreamDispatcher StreamDispatcher_Context

datatype Pcap = Pcap

text \<open>
  \<^verbatim>\<open>FilterThread::Context\<close>, allocated by \<^verbatim>\<open>std::make_shared\<close> and shared by a
  group and its workers. \<open>ctx_id\<close> is the identity of the allocated object; a worker
  refers to its context by this identity. (The member \<^verbatim>\<open>store\<close> always points to the
  store of the session.)
\<close>

record FilterThread_Context =
  ctx_id :: nat
  ctx_filter :: string
  ctx_script :: string
  ctx_packets :: SequenceSet

datatype FilterThread = FilterThread nat

text \<open>\<^verbatim>\<open>struct FilterContext { threads; ctx; }\<close>\<close>

record FilterContext =
  fc_threads :: "FilterThread list"
  fc_ctx :: FilterThread_Context

datatype uv_handle = StatusCbAsync | LogCbAsync

datatype effect =
    Queue_close
  | DissectorThreads_clear
  | FilterThreads_clear
  | StreamDispatcher_reset
  | Pcap_reset
  | Pcap_start
  | Pcap_stop
  | Uv_close uv_handle
  | Uv_async_send uv_handle
  | FilterContext_destroyed nat
  | FilterContext_constructed nat

text \<open>
  \<^verbatim>\<open>class Session::Private\<close>. The two \<^verbatim>\<open>std::unordered_map\<close>s are association
  lists with distinct keys. C++ leaves the iteration order of such a map open: the calls
  of the log handler are listed in the order of the list of recent logs, and the loop of
  the status handler gets the order in which it meets the filter groups as a parameter. The two \<^verbatim>\<open>uv_async_t\<close> handles are the flags
  "a wakeup is pending". \<open>ctx_next\<close> is the identity the next allocated filter context gets.
\<close>

record Private =
  queue :: PacketQueue
  store :: PacketStore
  dissectorThreads :: "DissectorThread list"
  filterThreads :: "(string \<times> FilterContext) list"
  ns :: string
  filterScript :: string
  statusCb :: "js_function option"
  logCb :: "js_function option"
  statusCbAsync :: bool
  logCbAsync :: bool
  streamDispatcher :: "StreamDispatcher option"
  pcap :: "Pcap option"
  recentLogs :: "(string \<times> LogMessage) list"
  capturing :: bool
  threads :: cint
  ctx_next :: nat
  trace :: "effect list"

definition call :: "effect \<Rightarrow> Private \<Rightarrow> Private" where
  "call e d = d\<lparr>trace := trace d @ [e]\<rparr>"

text \<open>\<^verbatim>\<open>uv_async_send\<close>: any number of sends before the handler runs is one wakeup.\<close>

definition uv_async_send :: "uv_handle \<Rightarrow> Private \<Rightarrow> Private" where
  "uv_async_send h d =
     call (Uv_async_send h)
       (case h of StatusCbAsync \<Rightarrow> d\<lparr>statusCbAsync := True\<rparr>
                | LogCbAsync \<Rightarrow> d\<lparr>logCbAsync := True\<rparr>)"

subsection \<open>Construction and destruction\<close>

text \<open>
  \<^verbatim>\<open>Session::Private::Private()\<close>. The member \<^verbatim>\<open>threads\<close> has no initializer:
  \<open>uninit\<close> is whatever value it happens to hold.
\<close>

definition Private_ctor :: "cint \<Rightarrow> Private" where
  "Private_ctor uninit =
     \<lparr>queue = \<lparr>items = [], closed = False\<rparr>,
      store = [],
      dissectorThreads = [],
      filterThreads = [],
      ns = [],
      filterScript = [],
      statusCb = None,
      logCb = None,
      statusCbAsync = False,
      logCbAsync = False,
      streamDispatcher = None,
      pcap = None,
      recentLogs = [],
      capturing = False,
      threads = uninit,
      ctx_next = 0,
      trace = []\<rparr>"

text \<open>
  The option object, as \<^verbatim>\<open>v8pp::get_option\<close> reads it: a property that is absent
  leaves the target variable as it is.
\<close>

record session_options =
  opt_namespace :: "string option"
  opt_filterScript :: "string option"
  opt_threads :: "cint option"
  opt_dissectors :: "js_value list option"
  opt_stream_dissectors :: "js_value list option"

datatype option_value = OptionEmpty | OptionNotObject | OptionObject session_options

definition get_option :: "'a option \<Rightarrow> 'a \<Rightarrow> 'a" where
  "get_option prop var = (case prop of None \<Rightarrow> var | Some v \<Rightarrow> v)"

text \<open>The loops over the two dissector arrays: every element that is an object is kept.\<close>

fun emplace_dissectors :: "js_value list \<Rightarrow> Dissector list" where
  "emplace_dissectors [] = []"
| "emplace_dissectors (JsObject h # vs) = Dissector h # emplace_dissectors vs"
| "emplace_dissectors (_ # vs) = emplace_dissectors vs"

definition get_dissectors :: "js_value list option \<Rightarrow> Dissector list" where
  "get_dissectors prop = (case prop of None \<Rightarrow> [] | Some arr \<Rightarrow> emplace_dissectors arr)"

text \<open>
  \<^verbatim>\<open>Session::Session(option)\<close>; \<open>hardware_concurrency\<close> is the value of
  \<^verbatim>\<open>std::thread::hardware_concurrency()\<close>, converted to \<^verbatim>\<open>int\<close> by the assignment.
\<close>

definition Session_ctor :: "cint \<Rightarrow> uint32 \<Rightarrow> option_value \<Rightarrow> Private" where
  "Session_ctor uninit hardware_concurrency option =
     (let d = Private_ctor uninit in
      case option of
        OptionEmpty \<Rightarrow> d
      | OptionNotObject \<Rightarrow> d
      | OptionObject opt \<Rightarrow>
          (let n = get_option (opt_threads opt) hardware_concurrency;
               t = std_max 1 (n - 1);
               dissCtx = \<lparr>diss_dissectors = get_dissectors (opt_dissectors opt)\<rparr>;
               streamCtx = \<lparr>sd_threads = t,
                            sd_dissectors = get_dissectors (opt_stream_dissectors opt)\<rparr>
           in d\<lparr>ns := get_option (opt_namespace opt) (ns d),
                filterScript := get_option (opt_filterScript opt) (filterScript d),
                threads := t,
                dissectorThreads := for_emplace 0 t (DissectorThread dissCtx) (dissectorThreads d),
                streamDispatcher := Some (StreamDispatcher streamCtx),
                pcap := Some Pcap\<rparr>))"

text \<open>\<^verbatim>\<open>Session::Private::~Private()\<close>, statement by statement.\<close>

definition Private_dtor :: "Private \<Rightarrow> Private" where
  "Private_dtor d =
     (let d1 = call Queue_close (d\<lparr>queue := PacketQueue_close (queue d)\<rparr>);
          d2 = call DissectorThreads_clear (d1\<lparr>dissectorThreads := []\<rparr>);
          d3 = call FilterThreads_clear (d2\<lparr>filterThreads := []\<rparr>);
          d4 = call StreamDispatcher_reset (d3\<lparr>streamDispatcher := None\<rparr>);
          d5 = call Pcap_reset (d4\<lparr>pcap := None\<rparr>);
          d6 = call (Uv_close StatusCbAsync) d5
      in call (Uv_close LogCbAsync) d6)"

subsection \<open>Logging\<close>

text \<open>
  \<^verbatim>\<open>Session::Private::log(msg)\<close>: \<^verbatim>\<open>recentLogs[msg.key()] = msg\<close>, then the wakeup.
  \<^verbatim>\<open>LogMessage::key()\<close> is declared in log_message.hpp; it is the parameter \<open>key\<close>.
\<close>

definition Private_log :: "(LogMessage \<Rightarrow> string) \<Rightarrow> LogMessage \<Rightarrow> Private \<Rightarrow> Private" where
  "Private_log key msg d =
     uv_async_send LogCbAsync (d\<lparr>recentLogs := AList.update (key msg) msg (recentLogs d)\<rparr>)"

text \<open>
  The handler of \<^verbatim>\<open>logCbAsync\<close>: with a callback set, it swaps the recent logs with an
  empty map and calls the callback once for every entry. The result is the new state and
  the list of calls (callback, argument) it made.
\<close>

definition logCbAsync_handler :: "Private \<Rightarrow> Private \<times> (js_function \<times> LogObject) list" where
  "logCbAsync_handler d =
     (case logCb d of
        None \<Rightarrow> (d\<lparr>logCbAsync := False\<rparr>, [])
      | Some func \<Rightarrow>
          (let logs = recentLogs d
           in (d\<lparr>logCbAsync := False, recentLogs := []\<rparr>,
               map (\<lambda>pair. (func, log_object (snd pair))) logs)))"

subsection \<open>Status\<close>

text \<open>The object the status callback receives; \<open>st_filtered\<close> maps a property name to its value.\<close>

record StatusObject =
  st_capturing :: bool
  st_packets :: uint32
  st_filtered :: "string \<rightharpoonup> uint32"

text \<open>
  \<^verbatim>\<open>v8pp::set_option(isolate, filtered, name, value)\<close> writes a property of the object
  \<^verbatim>\<open>filtered\<close>. The function belongs to the v8pp library, whose code is not at hand: it
  is the parameter \<open>set_option'\<close> of the handler, which applies it to the name it hands
  over, \<^verbatim>\<open>pair.first.c_str()\<close>. \<open>plain_set_option\<close> is the write that takes the name
  it is given as the name of the property.
\<close>

type_synonym js_properties = "string \<rightharpoonup> uint32"

definition plain_set_option :: "string \<Rightarrow> uint32 \<Rightarrow> js_properties \<Rightarrow> js_properties" where
  "plain_set_option name v obj = obj(name \<mapsto> v)"

text \<open>
  The loop that fills \<^verbatim>\<open>filtered\<close>, one \<^verbatim>\<open>set_option\<close> for every group. \<open>visit\<close>
  lists the entries of \<^verbatim>\<open>filterThreads\<close> in the order in which the iteration over the
  \<^verbatim>\<open>std::unordered_map\<close> meets them; C++ leaves this order open.
\<close>

definition set_filtered ::
  "(string \<Rightarrow> uint32 \<Rightarrow> js_properties \<Rightarrow> js_properties) \<Rightarrow> (string \<times> FilterContext) list
     \<Rightarrow> js_properties" where
  "set_filtered set_option' visit =
     fold (\<lambda>pair filtered.
             set_option' (c_str (fst pair)) (SequenceSet_size (ctx_packets (fc_ctx (snd pair))))
               filtered)
          visit Map.empty"

text \<open>The object the handler builds.\<close>

definition status_object ::
  "(string \<Rightarrow> uint32 \<Rightarrow> js_properties \<Rightarrow> js_properties) \<Rightarrow> (string \<times> FilterContext) list
     \<Rightarrow> Private \<Rightarrow> StatusObject" where
  "status_object set_option' visit d =
     \<lparr>st_capturing = capturing d,
      st_packets = PacketStore_maxSeq (store d),
      st_filtered = set_filtered set_option' visit\<rparr>"

text \<open>The handler of \<^verbatim>\<open>statusCbAsync\<close>: the new state and the call it made, if any.\<close>

definition statusCbAsync_handler ::
  "(string \<Rightarrow> uint32 \<Rightarrow> js_properties \<Rightarrow> js_properties) \<Rightarrow> (string \<times> FilterContext) list
     \<Rightarrow> Private \<Rightarrow> Private \<times> (js_function \<times> StatusObject) option" where
  "statusCbAsync_handler set_option' visit d =
     (case statusCb d of
        None \<Rightarrow> (d\<lparr>statusCbAsync := False\<rparr>, None)
      | Some func \<Rightarrow>
          (d\<lparr>statusCbAsync := False\<rparr>, Some (func, status_object set_option' visit d)))"

subsection \<open>The control surface\<close>

text \<open>\<^verbatim>\<open>Session::analyze(pkt)\<close>\<close>

definition Session_analyze :: "Packet \<Rightarrow> Private \<Rightarrow> Private" where
  "Session_analyze pkt d =
     (let layer = \<lparr>layer_ns = ns d, layer_name = ''Raw Layer'', layer_payload = payload pkt\<rparr>
      in d\<lparr>queue := PacketQueue_push (Packet_addLayer layer pkt) (queue d)\<rparr>)"

text \<open>
  \<^verbatim>\<open>d->filterThreads.erase(name)\<close>: the entry, if there is one, is destroyed with its
  workers and its context.
\<close>

definition filterThreads_erase :: "string \<Rightarrow> Private \<Rightarrow> Private" where
  "filterThreads_erase name d =
     (case map_of (filterThreads d) name of
        None \<Rightarrow> d
      | Some old \<Rightarrow>
          call (FilterContext_destroyed (ctx_id (fc_ctx old)))
            (d\<lparr>filterThreads := AList.delete name (filterThreads d)\<rparr>))"

text \<open>The body of \<^verbatim>\<open>if (!filter.empty())\<close>: a new context and \<^verbatim>\<open>d->threads\<close> workers.\<close>

definition filterThreads_construct :: "string \<Rightarrow> string \<Rightarrow> Private \<Rightarrow> Private" where
  "filterThreads_construct name filter' d =
     (let ctx = \<lparr>ctx_id = ctx_next d, ctx_filter = filter', ctx_script = filterScript d,
                 ctx_packets = []\<rparr>;
          context = \<lparr>fc_threads = for_emplace 0 (threads d) (FilterThread (ctx_id ctx)) [],
                     fc_ctx = ctx\<rparr>
      in call (FilterContext_constructed (ctx_id ctx))
           (d\<lparr>filterThreads := AList.update name context (filterThreads d),
              ctx_next := Suc (ctx_next d)\<rparr>))"

text \<open>\<^verbatim>\<open>Session::filter(name, filter)\<close>\<close>

definition Session_filter :: "string \<Rightarrow> string \<Rightarrow> Private \<Rightarrow> Private" where
  "Session_filter name filter' d =
     (let d1 = filterThreads_erase name d;
          d2 = (if filter' \<noteq> [] then filterThreads_construct name filter' d1 else d1)
      in uv_async_send StatusCbAsync d2)"

text \<open>\<^verbatim>\<open>Session::getFiltered(name, start, end)\<close>\<close>

definition Session_getFiltered :: "string \<Rightarrow> uint32 \<Rightarrow> uint32 \<Rightarrow> Private \<Rightarrow> uint32 list" where
  "Session_getFiltered name start end d =
     (case map_of (filterThreads d) name of
        None \<Rightarrow> []
      | Some context \<Rightarrow> SequenceSet_get (ctx_packets (fc_ctx context)) start end)"

text \<open>
  \<^verbatim>\<open>Session::start()\<close> and \<^verbatim>\<open>Session::stop()\<close>. Both go through \<^verbatim>\<open>d->pcap\<close>,
  which is null in a session that was constructed without an option object.
\<close>

datatype error = NullPointer

definition Session_start :: "Private \<Rightarrow> error + Private" where
  "Session_start d =
     (case pcap d of
        None \<Rightarrow> Inl NullPointer
      | Some p \<Rightarrow> Inr (uv_async_send StatusCbAsync ((call Pcap_start d)\<lparr>capturing := True\<rparr>)))"

definition Session_stop :: "Private \<Rightarrow> error + Private" where
  "Session_stop d =
     (case pcap d of
        None \<Rightarrow> Inl NullPointer
      | Some p \<Rightarrow> Inr (uv_async_send StatusCbAsync ((call Pcap_stop d)\<lparr>capturing := False\<rparr>)))"

text \<open>
  \<^verbatim>\<open>Session::setStatusCallback(cb)\<close> and \<^verbatim>\<open>Session::setLogCallback(cb)\<close>; an empty
  handle is \<open>None\<close>.
\<close>

definition Session_setStatusCallback :: "js_function option \<Rightarrow> Private \<Rightarrow> Private" where
  "Session_setStatusCallback cb d = d\<lparr>statusCb := cb\<rparr>"

definition Session_setLogCallback :: "js_function option \<Rightarrow> Private \<Rightarrow> Private" where
  "Session_setLogCallback cb d = d\<lparr>logCb := cb\<rparr>"

subsection \<open>What the workers do to the session\<close>

text \<open>
  \<^verbatim>\<open>dissCtx->packetCb\<close>: a dissector worker inserts a packet into the store; the store
  handler registered in \<^verbatim>\<open>Private()\<close> sends the status wakeup.
\<close>

definition packetCb :: "Packet \<Rightarrow> Private \<Rightarrow> Private" where
  "packetCb pkt d = uv_async_send StatusCbAsync (d\<lparr>store := PacketStore_insert pkt (store d)\<rparr>)"

text \<open>
  Modelled from the spec: a worker of a filter group (filter_thread.hpp) inserts a
  matching sequence number into the result set of its own context. \<open>c\<close> is the identity
  of that context; a context that has been destroyed receives nothing. The handler that
  \<^verbatim>\<open>Session::filter\<close> registered on the set sends the status wakeup.
\<close>

definition insert_into :: "nat \<Rightarrow> uint32 \<Rightarrow> FilterContext \<Rightarrow> FilterContext" where
  "insert_into c s context =
     (if ctx_id (fc_ctx context) = c
      then context\<lparr>fc_ctx := (fc_ctx context)
             \<lparr>ctx_packets := SequenceSet_insert s (ctx_packets (fc_ctx context))\<rparr>\<rparr>
      else context)"

definition FilterThread_insert :: "nat \<Rightarrow> uint32 \<Rightarrow> Private \<Rightarrow> Private" where
  "FilterThread_insert c s d =
     (if c \<in> set (map (\<lambda>pair. ctx_id (fc_ctx (snd pair))) (filterThreads d))
      then uv_async_send StatusCbAsync
             (d\<lparr>filterThreads :=
                  map (\<lambda>(name, context). (name, insert_into c s context)) (filterThreads d)\<rparr>)
      else d)"

text \<open>
  What can happen to a session between two reads: calls of the control surface, the
  callbacks of the workers, and the two handlers run by the event loop. A call of
  \<^verbatim>\<open>start()\<close> or \<^verbatim>\<open>stop()\<close> that fails does not return, so it is no step of a
  run: for such a call the state stays as it is. The state the status handler leaves
  does not depend on the property write and on the order of its loop.
\<close>

datatype event =
    Analyze Packet
  | Filter string string
  | Log LogMessage
  | PacketCb Packet
  | FilterInsert nat uint32
  | SetStatusCallback "js_function option"
  | SetLogCallback "js_function option"
  | Start
  | Stop
  | StatusDelivery
  | LogDelivery

fun step :: "(LogMessage \<Rightarrow> string) \<Rightarrow> event \<Rightarrow> Private \<Rightarrow> Private" where
  "step key (Analyze pkt) d = Session_analyze pkt d"
| "step key (Filter name filter') d = Session_filter name filter' d"
| "step key (Log msg) d = Private_log key msg d"
| "step key (PacketCb pkt) d = packetCb pkt d"
| "step key (FilterInsert c s) d = FilterThread_insert c s d"
| "step key (SetStatusCallback cb) d = Session_setStatusCallback cb d"
| "step key (SetLogCallback cb) d = Session_setLogCallback cb d"
| "step key Start d = (case Session_start d of Inr d' \<Rightarrow> d' | Inl e \<Rightarrow> d)"
| "step key Stop d = (case Session_stop d of Inr d' \<Rightarrow> d' | Inl e \<Rightarrow> d)"
| "step key StatusDelivery d =
     fst (statusCbAsync_handler plain_set_option (filterThreads d) d)"
| "step key LogDelivery d = fst (logCbAsync_handler d)"

definition run :: "(LogMessage \<Rightarrow> string) \<Rightarrow> event list \<Rightarrow> Private \<Rightarrow> Private" where
  "run key evs d = fold (step key) evs d"

subsection \<open>Invariants of the filter groups\<close>

text \<open>
  The identities of the contexts of the installed groups have all been allocated (they
  lie below \<open>ctx_next\<close>), and no two groups share a context.
\<close>

definition ids_ok :: "Private \<Rightarrow> bool" where
  "ids_ok d \<longleftrightarrow>
     (\<forall>n g. map_of (filterThreads d) n = Some g \<longrightarrow> ctx_id (fc_ctx g) < ctx_next d)
   \<and> (\<forall>n n' g g'.
        map_of (filterThreads d) n = Some g \<longrightarrow>
        map_of (filterThreads d) n' = Some g' \<longrightarrow>
        ctx_id (fc_ctx g) = ctx_id (fc_ctx g') \<longrightarrow> n = n')"

text \<open>
  The sequence numbers that an event inserts into the result set of the context \<open>c\<close>.
\<close>

fun inserted_into :: "nat \<Rightarrow> event \<Rightarrow> uint32 set" where
  "inserted_into c (FilterInsert c' s) = (if c' = c then {s} else {})"
| "inserted_into c _ = {}"

text \<open>
  Every context allocated from \<open>N\<close> on holds only sequence numbers of \<open>S\<close>, and the
  group under \<open>name\<close>, if there is one, has such a context.
\<close>

definition only_new :: "string \<Rightarrow> nat \<Rightarrow> (nat \<Rightarrow> uint32 set) \<Rightarrow> Private \<Rightarrow> bool" where
  "only_new name N S d \<longleftrightarrow>
     N \<le> ctx_next d
   \<and> (\<forall>n g. map_of (filterThreads d) n = Some g \<longrightarrow> N \<le> ctx_id (fc_ctx g) \<longrightarrow>
         set (ctx_packets (fc_ctx g)) \<subseteq> S (ctx_id (fc_ctx g)))
   \<and> (\<forall>g. map_of (filterThreads d) name = Some g \<longrightarrow> N \<le> ctx_id (fc_ctx g))"

subsection \<open>A packet that is already wrapped\<close>

text \<open>
  The words of the specification for \<^verbatim>\<open>analyze\<close>: the packet carries a single root
  layer, named by the namespace of the session, whose payload is the captured bytes.
\<close>

definition has_namespace_root_layer :: "Private \<Rightarrow> Packet \<Rightarrow> bool" where
  "has_namespace_root_layer d pkt =
     (case layers pkt of
        [l] \<Rightarrow> layer_ns l = ns d \<and> layer_payload l = payload pkt
      | _ \<Rightarrow> False)"

subsection \<open>Example sessions\<close>

definition example_options :: session_options where
  "example_options =
     \<lparr>opt_namespace = Some ''eth'',
      opt_filterScript = Some ''script'',
      opt_threads = Some 3,
      opt_dissectors = Some [JsObject 1, JsPrimitive, JsObject 2],
      opt_stream_dissectors = None\<rparr>"

definition example_session :: Private where
  "example_session = Session_ctor 0 8 (OptionObject example_options)"

definition example_packet :: Packet where
  "example_packet =
     \<lparr>payload = [0xAA],
      layers = [\<lparr>layer_ns = ''eth'', layer_name = ''eth'', layer_payload = [0xAA]\<rparr>]\<rparr>"

definition example_message :: LogMessage where
  "example_message =
     \<lparr>level = LEVEL_ERROR, message = ''boom'', domain = ''dissector'',
      resourceName = ''d1.js'', sourceLine = ''x()'', lineNumber = 7,
      startPosition = 0, endPosition = 3, startColumn = -1, endColumn = -1\<rparr>"

definition example_running :: Private where
  "example_running =
     run message
       [SetStatusCallback (Some (JsFunction 1)), SetLogCallback (Some (JsFunction 2)),
        Start, Filter ''udp'' ''udp'', FilterInsert 0 2, PacketCb example_packet]
       example_session"



subsection \<open>Order in a trace\<close>

text \<open>Some occurrence of \<open>a\<close> is followed, later in the trace, by an occurrence of \<open>b\<close>.\<close>

fun happens_before :: "effect \<Rightarrow> effect \<Rightarrow> effect list \<Rightarrow> bool" where
  "happens_before a b [] = False"
| "happens_before a b (e # tr) = ((e = a \<and> b \<in> set tr) \<or> happens_before a b tr)"

section \<open>Properties\<close>

subsection \<open>The counted loop\<close>

lemma sint_succ:
  fixes i n :: cint
  assumes "i <s n"
  shows "sint (i + 1) = sint i + 1"
proof -
  have lo: "- (2 ^ 31) \<le> sint i" using sint_ge [of i] by simp
  have "sint n < 2 ^ 31" using sint_lt [of n] by simp
  with assms have hi: "sint i + 1 < 2 ^ 31" by (simp add: word_sless_alt)
  have "sint (i + 1) = signed_take_bit 31 (sint i + 1)"
    by (simp add: sint_word_ariths)
  also have "\<dots> = sint i + 1"
    using lo hi by (intro signed_take_bit_int_eq_self) simp_all
  finally show ?thesis .
qed

termination for_emplace
  apply (relation "measure (\<lambda>(i, n, x, v). nat (sint n - sint i))")
   apply simp
  apply (simp add: sint_succ word_sless_alt)
  done

declare for_emplace.simps [simp del]

lemma for_emplace_eq: "for_emplace i n x v = v @ replicate (nat (sint n - sint i)) x"
proof (induction i n x v rule: for_emplace.induct)
  case (1 i n x v)
  show ?case
  proof (cases "i <s n")
    case True
    then have s: "sint (i + 1) = sint i + 1" by (rule sint_succ)
    from True have "sint i < sint n" by (simp add: word_sless_alt)
    then have "nat (sint n - sint i) = Suc (nat (sint n - (sint i + 1)))" by simp
    with 1 True s show ?thesis
      by (subst for_emplace.simps) (simp add: replicate_append_same)
  next
    case False
    then have "sint n - sint i \<le> 0" by (simp add: word_sless_alt)
    with False show ?thesis by (subst for_emplace.simps) simp
  qed
qed

subsection \<open>Reading a name that has no filter group\<close>

lemma getFiltered_unknown_name_aux:
  assumes "name \<notin> fst ` set (filterThreads d)"
  shows "Session_getFiltered name start end d = []"
proof -
  from assms have "map_of (filterThreads d) name = None"
    by (simp add: map_of_eq_None_iff)
  then show ?thesis by (simp add: Session_getFiltered_def)
qed

text \<open>
  C9. For every name under which no filter group is installed, and every start and end,
  \<^verbatim>\<open>getFiltered(name, start, end)\<close> returns the empty list. The function has no error
  path: it is total and returns a plain list.
\<close>

theorem getFiltered_unknown_name:
  assumes "name \<notin> fst ` set (filterThreads d)"
  shows "Session_getFiltered name start end d = []"
  using assms by (rule getFiltered_unknown_name_aux)

theorem getFiltered_unknown_name_witness:
  "''tcp'' \<notin> fst ` set (filterThreads (Session_filter ''udp'' ''udp'' example_session))
   \<and> Session_getFiltered ''tcp'' 1 100 (Session_filter ''udp'' ''udp'' example_session) = []"
proof -
  have h: "''tcp'' \<notin> fst ` set (filterThreads (Session_filter ''udp'' ''udp'' example_session))"
    by (simp add: Session_filter_def filterThreads_erase_def filterThreads_construct_def
        example_session_def Session_ctor_def Private_ctor_def uv_async_send_def call_def Let_def)
  from getFiltered_unknown_name [OF h, of 1 100] h show ?thesis by simp
qed

subsection \<open>What the operations leave alone\<close>

lemma call_fields:
  "queue (call e d) = queue d" "store (call e d) = store d"
  "filterThreads (call e d) = filterThreads d" "ctx_next (call e d) = ctx_next d"
  "threads (call e d) = threads d" "filterScript (call e d) = filterScript d"
  "recentLogs (call e d) = recentLogs d" "logCb (call e d) = logCb d"
  "statusCb (call e d) = statusCb d" "capturing (call e d) = capturing d"
  "dissectorThreads (call e d) = dissectorThreads d" "pcap (call e d) = pcap d"
  "streamDispatcher (call e d) = streamDispatcher d" "ns (call e d) = ns d"
  "statusCbAsync (call e d) = statusCbAsync d" "logCbAsync (call e d) = logCbAsync d"
  "trace (call e d) = trace d @ [e]"
  by (simp_all add: call_def)

lemma uv_async_send_fields:
  "queue (uv_async_send h d) = queue d" "store (uv_async_send h d) = store d"
  "filterThreads (uv_async_send h d) = filterThreads d"
  "ctx_next (uv_async_send h d) = ctx_next d"
  "threads (uv_async_send h d) = threads d"
  "filterScript (uv_async_send h d) = filterScript d"
  "recentLogs (uv_async_send h d) = recentLogs d" "logCb (uv_async_send h d) = logCb d"
  "statusCb (uv_async_send h d) = statusCb d" "capturing (uv_async_send h d) = capturing d"
  "dissectorThreads (uv_async_send h d) = dissectorThreads d"
  "pcap (uv_async_send h d) = pcap d"
  "streamDispatcher (uv_async_send h d) = streamDispatcher d" "ns (uv_async_send h d) = ns d"
  "trace (uv_async_send h d) = trace d @ [Uv_async_send h]"
  by (cases h; simp add: uv_async_send_def call_def)+

lemma uv_async_send_pending:
  "statusCbAsync (uv_async_send StatusCbAsync d)" "logCbAsync (uv_async_send LogCbAsync d)"
  "logCbAsync (uv_async_send StatusCbAsync d) = logCbAsync d"
  "statusCbAsync (uv_async_send LogCbAsync d) = statusCbAsync d"
  by (simp_all add: uv_async_send_def call_def)

lemma filterThreads_erase_groups:
  "filterThreads (filterThreads_erase name d) = AList.delete name (filterThreads d)"
proof (cases "map_of (filterThreads d) name")
  case None
  then have "name \<notin> fst ` set (filterThreads d)" by (simp add: map_of_eq_None_iff)
  with None show ?thesis by (simp add: filterThreads_erase_def)
next
  case (Some old)
  then show ?thesis by (simp add: filterThreads_erase_def call_fields)
qed

lemma filterThreads_erase_fields:
  "ctx_next (filterThreads_erase name d) = ctx_next d"
  "threads (filterThreads_erase name d) = threads d"
  "filterScript (filterThreads_erase name d) = filterScript d"
  "store (filterThreads_erase name d) = store d"
  "queue (filterThreads_erase name d) = queue d"
  by (simp_all add: filterThreads_erase_def call_fields split: option.splits)

lemma filterThreads_construct_groups:
  "filterThreads (filterThreads_construct name f d) =
     AList.update name
       \<lparr>fc_threads = for_emplace 0 (threads d) (FilterThread (ctx_next d)) [],
        fc_ctx = \<lparr>ctx_id = ctx_next d, ctx_filter = f, ctx_script = filterScript d,
                  ctx_packets = []\<rparr>\<rparr>
       (filterThreads d)"
  by (simp add: filterThreads_construct_def call_fields Let_def)

lemma Session_filter_groups:
  "filterThreads (Session_filter name f d) =
     (if f \<noteq> []
      then AList.update name
             \<lparr>fc_threads = for_emplace 0 (threads d) (FilterThread (ctx_next d)) [],
              fc_ctx = \<lparr>ctx_id = ctx_next d, ctx_filter = f, ctx_script = filterScript d,
                        ctx_packets = []\<rparr>\<rparr>
             (AList.delete name (filterThreads d))
      else AList.delete name (filterThreads d))"
  by (simp add: Session_filter_def Let_def uv_async_send_fields filterThreads_construct_groups
      filterThreads_erase_groups filterThreads_erase_fields)

lemma Session_filter_ctx_next:
  "ctx_next (Session_filter name f d) = (if f \<noteq> [] then Suc (ctx_next d) else ctx_next d)"
  by (simp add: Session_filter_def Let_def uv_async_send_fields filterThreads_construct_def
      call_fields filterThreads_erase_fields)

lemma FilterThread_insert_keys:
  "map fst (filterThreads (FilterThread_insert c s d)) = map fst (filterThreads d)"
  by (simp add: FilterThread_insert_def uv_async_send_fields case_prod_beta comp_def)

lemma keys_delete: "fst ` set (AList.delete k al) = fst ` set al - {k}"
proof -
  have "set (map fst (AList.delete k al)) = set (map fst al) - {k}"
    by (simp add: delete_keys)
  then show ?thesis by simp
qed

lemma step_keys_other:
  assumes "\<forall>f. e = Filter name f \<longrightarrow> f = []"
    and "name \<notin> fst ` set (filterThreads d)"
  shows "name \<notin> fst ` set (filterThreads (step key e d))"
proof (cases e)
  case (Analyze pkt)
  with assms show ?thesis by (simp add: Session_analyze_def Let_def)
next
  case (Filter n f)
  with assms show ?thesis
    by (auto simp: Session_filter_groups dom_update keys_delete)
next
  case (Log msg)
  with assms show ?thesis by (simp add: Private_log_def uv_async_send_fields)
next
  case (PacketCb pkt)
  with assms show ?thesis by (simp add: packetCb_def uv_async_send_fields)
next
  case (FilterInsert c s)
  have "fst ` set (filterThreads (FilterThread_insert c s d)) = fst ` set (filterThreads d)"
    using FilterThread_insert_keys [of c s d] by (metis set_map)
  with FilterInsert assms show ?thesis by simp
next
  case (SetStatusCallback cb)
  with assms show ?thesis by (simp add: Session_setStatusCallback_def)
next
  case (SetLogCallback cb)
  with assms show ?thesis by (simp add: Session_setLogCallback_def)
next
  case Start
  with assms show ?thesis
    by (simp add: Session_start_def uv_async_send_fields call_fields split: option.splits)
next
  case Stop
  with assms show ?thesis
    by (simp add: Session_stop_def uv_async_send_fields call_fields split: option.splits)
next
  case StatusDelivery
  with assms show ?thesis by (simp add: statusCbAsync_handler_def split: option.splits)
next
  case LogDelivery
  with assms show ?thesis by (simp add: logCbAsync_handler_def Let_def split: option.splits)
qed

lemma run_keys_other:
  assumes "\<forall>e \<in> set evs. \<forall>f. e = Filter name f \<longrightarrow> f = []"
    and "name \<notin> fst ` set (filterThreads d)"
  shows "name \<notin> fst ` set (filterThreads (run key evs d))"
  using assms
proof (induction evs arbitrary: d)
  case Nil
  then show ?case by (simp add: run_def)
next
  case (Cons e evs)
  from Cons.prems have "name \<notin> fst ` set (filterThreads (step key e d))"
    by (intro step_keys_other) simp_all
  with Cons show ?case by (simp add: run_def)
qed

subsection \<open>Removing a filter group\<close>

text \<open>
  C3. For every filter name, \<^verbatim>\<open>filter(name, expr)\<close> with the empty expression removes
  the group registered under the name and leaves every other group as it is; it constructs
  no context and no worker (the groups are those of before without the one under the
  name, and no context identity is used up). Every later \<^verbatim>\<open>getFiltered(name, start, end)\<close>
  returns the empty list, whatever happens in between, as long as no filter with a
  non-empty expression is installed under the name again.
\<close>

theorem filter_empty_removes_group:
  "filterThreads (Session_filter name [] d) = AList.delete name (filterThreads d)
   \<and> ctx_next (Session_filter name [] d) = ctx_next d
   \<and> Session_getFiltered name start end (Session_filter name [] d) = []
   \<and> ((\<forall>e \<in> set evs. \<forall>f. e = Filter name f \<longrightarrow> f = []) \<longrightarrow>
        Session_getFiltered name start end (run key evs (Session_filter name [] d)) = [])"
proof -
  let ?d' = "Session_filter name [] d"
  have groups: "filterThreads ?d' = AList.delete name (filterThreads d)"
    by (simp add: Session_filter_groups)
  have gone: "name \<notin> fst ` set (filterThreads ?d')"
    by (simp add: groups keys_delete)
  have later: "Session_getFiltered name start end (run key evs ?d') = []"
    if "\<forall>e \<in> set evs. \<forall>f. e = Filter name f \<longrightarrow> f = []"
    by (rule getFiltered_unknown_name_aux) (rule run_keys_other [OF that gone])
  have now: "Session_getFiltered name start end ?d' = []"
    by (rule getFiltered_unknown_name_aux) (rule gone)
  from groups now later show ?thesis by (simp add: Session_filter_ctx_next)
qed

theorem filter_empty_removes_group_witness:
  "Session_getFiltered ''udp'' 0 100
     (run message [FilterInsert 0 2, Filter ''tcp'' ''tcp'', Filter ''udp'' []]
        (Session_filter ''udp'' [] (Session_filter ''udp'' ''udp'' example_session))) = []"
proof -
  have h: "\<forall>e \<in> set [FilterInsert 0 2, Filter ''tcp'' ''tcp'', Filter ''udp'' []].
             \<forall>f. e = Filter ''udp'' f \<longrightarrow> f = []"
    by simp
  from filter_empty_removes_group
         [of "''udp''" "Session_filter ''udp'' ''udp'' example_session" 0 100
             "[FilterInsert 0 2, Filter ''tcp'' ''tcp'', Filter ''udp'' []]" message] h
  show ?thesis by blast
qed

subsection \<open>The example session\<close>

lemma example_session_eq:
  "example_session =
     \<lparr>queue = \<lparr>items = [], closed = False\<rparr>, store = [],
      dissectorThreads =
        [DissectorThread \<lparr>diss_dissectors = [Dissector 1, Dissector 2]\<rparr>,
         DissectorThread \<lparr>diss_dissectors = [Dissector 1, Dissector 2]\<rparr>],
      filterThreads = [], ns = ''eth'', filterScript = ''script'',
      statusCb = None, logCb = None, statusCbAsync = False, logCbAsync = False,
      streamDispatcher = Some (StreamDispatcher \<lparr>sd_threads = 2, sd_dissectors = []\<rparr>),
      pcap = Some Pcap, recentLogs = [], capturing = False, threads = 2,
      ctx_next = 0, trace = []\<rparr>"
proof -
  have t: "std_max 1 2 = (2::cint)"
    by (simp add: std_max_def word_sless_alt)
  have r: "replicate 2 x = [x, x]" for x :: DissectorThread
    by (simp add: numeral_2_eq_2)
  show ?thesis
    by (simp add: example_session_def example_options_def Session_ctor_def Private_ctor_def
        Let_def get_option_def get_dissectors_def t for_emplace_eq r)
qed

subsection \<open>Construction without an option object\<close>

text \<open>
  C10. If the option value passed to the constructor is empty or is not an object, the
  constructor returns early: the session is the one the default construction of its
  private part left, with no dissector threads, no stream dispatcher, no frame source,
  the empty string as namespace and no filter groups.
\<close>

theorem ctor_returns_early:
  assumes "option = OptionEmpty \<or> option = OptionNotObject"
  shows "Session_ctor uninit hc option = Private_ctor uninit
    \<and> dissectorThreads (Session_ctor uninit hc option) = []
    \<and> streamDispatcher (Session_ctor uninit hc option) = None
    \<and> pcap (Session_ctor uninit hc option) = None
    \<and> ns (Session_ctor uninit hc option) = []
    \<and> filterThreads (Session_ctor uninit hc option) = []"
  using assms by (auto simp: Session_ctor_def Private_ctor_def)

theorem ctor_returns_early_witness:
  "pcap (Session_ctor 0 8 OptionEmpty) = None
   \<and> pcap (Session_ctor 0 8 OptionNotObject) = None
   \<and> dissectorThreads (Session_ctor 0 8 OptionNotObject) = []
   \<and> ns (Session_ctor 0 8 OptionNotObject) = []"
proof -
  have e: "OptionEmpty = OptionEmpty \<or> OptionEmpty = OptionNotObject" by simp
  have n: "OptionNotObject = OptionEmpty \<or> OptionNotObject = OptionNotObject" by simp
  from ctor_returns_early [OF e, of 0 8] ctor_returns_early [OF n, of 0 8]
  show ?thesis by (simp add: Private_ctor_def)
qed

subsection \<open>The thread count\<close>

lemma step_threads: "threads (step key e d) = threads d"
  by (cases e)
     (simp_all add: Session_analyze_def Let_def Session_filter_def uv_async_send_fields
        filterThreads_construct_def call_fields filterThreads_erase_fields Private_log_def
        packetCb_def FilterThread_insert_def statusCbAsync_handler_def
        logCbAsync_handler_def Session_setStatusCallback_def Session_setLogCallback_def
        Session_start_def Session_stop_def split: option.splits)

lemma run_threads: "threads (run key evs d) = threads d"
  by (induction evs arbitrary: d) (simp_all add: run_def step_threads)

lemma std_max_sint: "sint (std_max a b) = max (sint a) (sint b)"
  by (simp add: std_max_def word_sless_alt max_def)

text \<open>
  On every \<^verbatim>\<open>int\<close> but the least one, the subtraction of the program is the
  subtraction of the integers.
\<close>

lemma sint_pred:
  fixes n :: cint
  assumes "- (2 ^ 31) < sint n"
  shows "sint (n - 1) = sint n - 1"
proof -
  have hi: "sint n < 2 ^ 31" using sint_lt [of n] by simp
  have "sint (n - 1) = signed_take_bit 31 (sint n - 1)"
    by (simp add: sint_word_ariths)
  also have "\<dots> = sint n - 1"
    using assms hi by (intro signed_take_bit_int_eq_self) simp_all
  finally show ?thesis .
qed

lemma std_max_pred_int:
  fixes n :: cint
  assumes "- (2 ^ 31) < sint n"
  shows "sint (std_max 1 (n - 1)) = max 1 (sint n - 1)"
  using assms by (simp add: std_max_sint sint_pred)

text \<open>
  The constructor computes \<^verbatim>\<open>std::max(1, d->threads - 1)\<close> on the 32-bit \<^verbatim>\<open>int\<close> of
  the program. Exactly that many dissector threads are started, the stream dispatcher is
  configured with that number of threads, and every filter group installed later, at
  any point of the life of the session, gets that many workers.
\<close>

lemma thread_count_configured:
  fixes opt :: session_options and n uninit :: cint and hc :: uint32
  defines "d \<equiv> Session_ctor uninit hc (OptionObject opt)"
  assumes "opt_threads opt = Some n"
  shows "threads d = std_max 1 (n - 1)
    \<and> sint (threads d) = max 1 (sint (n - 1))
    \<and> length (dissectorThreads d) = nat (sint (threads d))
    \<and> (\<exists>ctx. streamDispatcher d = Some (StreamDispatcher ctx) \<and> sd_threads ctx = threads d)
    \<and> (\<forall>evs name f. f \<noteq> [] \<longrightarrow>
          (\<exists>context. map_of (filterThreads (Session_filter name f (run key evs d))) name
                         = Some context
             \<and> length (fc_threads context) = nat (sint (threads d))))"
proof -
  have t: "threads d = std_max 1 (n - 1)"
    using assms by (simp add: Session_ctor_def Let_def get_option_def)
  have s: "sint (threads d) = max 1 (sint (n - 1))"
    by (simp add: t std_max_sint)
  have dt: "length (dissectorThreads d) = nat (sint (threads d))"
    using assms
    by (simp add: Session_ctor_def Let_def get_option_def for_emplace_eq Private_ctor_def)
  have sd: "\<exists>ctx. streamDispatcher d = Some (StreamDispatcher ctx) \<and> sd_threads ctx = threads d"
    using assms by (simp add: Session_ctor_def Let_def get_option_def)
  have ft: "\<exists>context. map_of (filterThreads (Session_filter name f (run key evs d))) name
                         = Some context
             \<and> length (fc_threads context) = nat (sint (threads d))"
    if "f \<noteq> []" for evs name f
    using that
    by (simp add: Session_filter_groups update_conv' for_emplace_eq run_threads)
  from t s dt sd ft show ?thesis by blast
qed

text \<open>
  For every configured count \<open>n\<close> above the least \<^verbatim>\<open>int\<close>, the count of the session is
  the integer \<open>max 1 (n - 1)\<close>, and so are the number of dissector threads, the number
  the stream dispatcher is configured with and the number of workers of a filter group.
\<close>

lemma thread_count_in_range:
  fixes opt :: session_options and n uninit :: cint and hc :: uint32
  defines "d \<equiv> Session_ctor uninit hc (OptionObject opt)"
  assumes "opt_threads opt = Some n" and "- (2 ^ 31) < sint n"
  shows "sint (threads d) = max 1 (sint n - 1)"
    and "int (length (dissectorThreads d)) = max 1 (sint n - 1)"
    and "\<exists>ctx. streamDispatcher d = Some (StreamDispatcher ctx)
            \<and> sint (sd_threads ctx) = max 1 (sint n - 1)"
    and "f \<noteq> [] \<Longrightarrow>
          \<exists>context. map_of (filterThreads (Session_filter name f (run key evs d))) name
                         = Some context
             \<and> int (length (fc_threads context)) = max 1 (sint n - 1)"
proof -
  note c = thread_count_configured [OF assms(2), of uninit hc key, folded d_def]
  have p: "sint (n - 1) = sint n - 1" using assms(3) by (rule sint_pred)
  from c have s: "sint (threads d) = max 1 (sint (n - 1))" by (elim conjE)
  then show t: "sint (threads d) = max 1 (sint n - 1)" by (simp only: p)
  from c have "length (dissectorThreads d) = nat (sint (threads d))" by (elim conjE)
  then show "int (length (dissectorThreads d)) = max 1 (sint n - 1)" by (simp add: t)
  from c have "\<exists>ctx. streamDispatcher d = Some (StreamDispatcher ctx)
                  \<and> sd_threads ctx = threads d"
    by (elim conjE)
  then show "\<exists>ctx. streamDispatcher d = Some (StreamDispatcher ctx)
            \<and> sint (sd_threads ctx) = max 1 (sint n - 1)"
    using t by auto
  from c have a: "\<forall>evs name f. f \<noteq> [] \<longrightarrow>
          (\<exists>context. map_of (filterThreads (Session_filter name f (run key evs d))) name
                         = Some context
             \<and> length (fc_threads context) = nat (sint (threads d)))"
    by (elim conjE)
  show "\<exists>context. map_of (filterThreads (Session_filter name f (run key evs d))) name
                         = Some context
             \<and> int (length (fc_threads context)) = max 1 (sint n - 1)"
    if "f \<noteq> []"
  proof -
    from a that obtain g where
      g: "map_of (filterThreads (Session_filter name f (run key evs d))) name = Some g"
         "length (fc_threads g) = nat (sint (threads d))"
      by (elim allE impE exE conjE)
    from g(2) have "int (length (fc_threads g)) = max 1 (sint n - 1)" by (simp add: t)
    with g(1) show ?thesis by (intro exI conjI)
  qed
qed

text \<open>
  C6. The claim gives the effective thread count as \<open>max(1, n - 1)\<close> of the configured
  count \<open>n\<close>. At the least \<^verbatim>\<open>int\<close>, \<open>n = -2147483648\<close>, that number is 1, but the
  subtraction \<^verbatim>\<open>d->threads - 1\<close> of the constructor leaves the range of \<^verbatim>\<open>int\<close>: with
  wrap-around it is 2147483647, \<^verbatim>\<open>std::max\<close> keeps it, and the constructor asks for
  2147483647 dissector threads and configures the stream dispatcher with 2147483647
  threads. Every filter group installed later asks for as many workers.
\<close>

theorem effective_thread_count_int_min:
  fixes opt :: session_options and uninit :: cint and hc :: uint32
  defines "d \<equiv> Session_ctor uninit hc (OptionObject (opt\<lparr>opt_threads := Some (- 2147483648)\<rparr>))"
  shows "sint (- 2147483648 :: cint) = - 2147483648
    \<and> max 1 (sint (- 2147483648 :: cint) - 1) = 1
    \<and> sint (threads d) = 2147483647
    \<and> sint (threads d) \<noteq> max 1 (sint (- 2147483648 :: cint) - 1)
    \<and> length (dissectorThreads d) = 2147483647
    \<and> (\<exists>ctx. streamDispatcher d = Some (StreamDispatcher ctx)
          \<and> sint (sd_threads ctx) = 2147483647)
    \<and> (\<exists>g. map_of (filterThreads (Session_filter ''udp'' ''udp'' d)) ''udp'' = Some g
          \<and> length (fc_threads g) = 2147483647)"
proof -
  have m: "std_max 1 (- 2147483649) = (2147483647 :: cint)"
    by (simp add: std_max_def word_sless_alt)
  have t: "threads d = 2147483647"
    by (simp add: d_def Session_ctor_def Let_def get_option_def m)
  have dt: "length (dissectorThreads d) = 2147483647"
    by (simp add: d_def Session_ctor_def Let_def get_option_def m for_emplace_eq
          Private_ctor_def)
  have sd: "\<exists>ctx. streamDispatcher d = Some (StreamDispatcher ctx)
              \<and> sint (sd_threads ctx) = 2147483647"
    by (simp add: d_def Session_ctor_def Let_def get_option_def m)
  have ft: "\<exists>g. map_of (filterThreads (Session_filter ''udp'' ''udp'' d)) ''udp'' = Some g
              \<and> length (fc_threads g) = 2147483647"
    by (simp add: Session_filter_groups update_conv' for_emplace_eq t)
  from t dt sd ft show ?thesis by simp
qed

subsection \<open>Starting and stopping the capture\<close>

text \<open>
  In a session that has a frame source, \<^verbatim>\<open>start()\<close> starts the frame source, sets the
  capturing flag and then raises the status signal; \<^verbatim>\<open>stop()\<close> stops the frame source,
  clears the flag and then raises the status signal. The state after the call is the
  state before it with the flag, the pending status wakeup and the trace changed and
  nothing else: in particular the packet store, the packet queue and the filter groups
  are the same.
\<close>

lemma start_stop_with_frame_source:
  assumes "pcap d = Some p"
  shows "Session_start d =
           Inr (d\<lparr>capturing := True, statusCbAsync := True,
                  trace := trace d @ [Pcap_start, Uv_async_send StatusCbAsync]\<rparr>)
    \<and> Session_stop d =
           Inr (d\<lparr>capturing := False, statusCbAsync := True,
                  trace := trace d @ [Pcap_stop, Uv_async_send StatusCbAsync]\<rparr>)
    \<and> (\<exists>d'. Session_start d = Inr d' \<and> capturing d' \<and> statusCbAsync d'
           \<and> happens_before Pcap_start (Uv_async_send StatusCbAsync)
                (drop (length (trace d)) (trace d'))
           \<and> store d' = store d \<and> queue d' = queue d \<and> filterThreads d' = filterThreads d)
    \<and> (\<exists>d'. Session_stop d = Inr d' \<and> \<not> capturing d' \<and> statusCbAsync d'
           \<and> happens_before Pcap_stop (Uv_async_send StatusCbAsync)
                (drop (length (trace d)) (trace d'))
           \<and> store d' = store d \<and> queue d' = queue d \<and> filterThreads d' = filterThreads d)"
  using assms by (simp add: Session_start_def Session_stop_def uv_async_send_def call_def)

text \<open>
  No member function of the session creates or releases the frame source: it is the one
  the constructor made, or none.
\<close>

lemma filterThreads_erase_pcap: "pcap (filterThreads_erase name d) = pcap d"
  by (simp add: filterThreads_erase_def call_fields split: option.splits)

lemma step_pcap: "pcap (step key e d) = pcap d"
  by (cases e)
     (simp_all add: Session_analyze_def Let_def Session_filter_def uv_async_send_fields
        filterThreads_construct_def call_fields filterThreads_erase_pcap Private_log_def
        packetCb_def FilterThread_insert_def statusCbAsync_handler_def
        logCbAsync_handler_def Session_setStatusCallback_def Session_setLogCallback_def
        Session_start_def Session_stop_def split: option.splits)

lemma run_pcap: "pcap (run key evs d) = pcap d"
  by (induction evs arbitrary: d) (simp_all add: run_def step_pcap)

lemma ctor_pcap:
  "pcap (Session_ctor uninit hc option) =
     (case option of OptionObject opt \<Rightarrow> Some Pcap | _ \<Rightarrow> None)"
  by (cases option) (simp_all add: Session_ctor_def Private_ctor_def Let_def)

text \<open>
  So in every state of a session constructed from an option object, \<^verbatim>\<open>start()\<close> and
  \<^verbatim>\<open>stop()\<close> return, with the effects above.
\<close>

lemma start_stop_constructed:
  fixes key history uninit hc opt
  defines "d \<equiv> run key history (Session_ctor uninit hc (OptionObject opt))"
  shows "(\<exists>d'. Session_start d = Inr d' \<and> capturing d' \<and> statusCbAsync d'
           \<and> happens_before Pcap_start (Uv_async_send StatusCbAsync)
                (drop (length (trace d)) (trace d'))
           \<and> store d' = store d \<and> queue d' = queue d \<and> filterThreads d' = filterThreads d)
    \<and> (\<exists>d'. Session_stop d = Inr d' \<and> \<not> capturing d' \<and> statusCbAsync d'
           \<and> happens_before Pcap_stop (Uv_async_send StatusCbAsync)
                (drop (length (trace d)) (trace d'))
           \<and> store d' = store d \<and> queue d' = queue d \<and> filterThreads d' = filterThreads d)"
proof -
  have p: "pcap d = Some Pcap" by (simp add: d_def run_pcap ctor_pcap)
  from start_stop_with_frame_source [OF p] show ?thesis by (elim conjE, intro conjI)
qed

text \<open>
  C7. The claim gives the effects of \<^verbatim>\<open>start()\<close> and \<^verbatim>\<open>stop()\<close> for every session. A
  session constructed with an empty option, or with an option that is not an object, has
  no frame source (the constructor returned before making one), and no member function
  makes one later. On such a session the first statement of \<^verbatim>\<open>start()\<close>,
  \<^verbatim>\<open>d->pcap->start()\<close>, and the first statement of \<^verbatim>\<open>stop()\<close>, \<^verbatim>\<open>d->pcap->stop()\<close>, go
  through a null pointer: neither function has a check for it. The call does not return
  a session: the capturing flag is not set and no status signal is raised.
\<close>

theorem start_stop_null_pcap:
  fixes key history uninit hc
  defines "e \<equiv> run key history (Session_ctor uninit hc OptionEmpty)"
    and "n \<equiv> run key history (Session_ctor uninit hc OptionNotObject)"
  shows "pcap e = None \<and> Session_start e = Inl NullPointer \<and> Session_stop e = Inl NullPointer
    \<and> pcap n = None \<and> Session_start n = Inl NullPointer \<and> Session_stop n = Inl NullPointer
    \<and> step key Start e = e \<and> step key Stop e = e
    \<and> step key Start n = n \<and> step key Stop n = n
    \<and> Session_start (Session_ctor uninit hc OptionEmpty) = Inl NullPointer
    \<and> \<not> capturing (step key Start (Session_ctor uninit hc OptionEmpty))
    \<and> \<not> statusCbAsync (step key Start (Session_ctor uninit hc OptionEmpty))
    \<and> trace (step key Start (Session_ctor uninit hc OptionEmpty)) = []"
proof -
  have pe: "pcap e = None" by (simp add: e_def run_pcap ctor_pcap)
  have pn: "pcap n = None" by (simp add: n_def run_pcap ctor_pcap)
  have z: "pcap (Session_ctor uninit hc OptionEmpty) = None" by (simp add: ctor_pcap)
  have s: "Session_start x = Inl NullPointer" "Session_stop x = Inl NullPointer"
    if "pcap x = None" for x
    using that by (simp_all add: Session_start_def Session_stop_def)
  have st: "step key Start x = x" "step key Stop x = x" if "pcap x = None" for x
    using that by (simp_all add: s)
  have f: "\<not> capturing (Session_ctor uninit hc OptionEmpty)"
    "\<not> statusCbAsync (Session_ctor uninit hc OptionEmpty)"
    "trace (Session_ctor uninit hc OptionEmpty) = []"
    by (simp_all add: Session_ctor_def Private_ctor_def)
  show ?thesis
    by (simp only: pe pn s [OF pe] s [OF pn] s [OF z] st [OF pe] st [OF pn] st [OF z] f)
       simp
qed

subsection \<open>Destruction\<close>

lemma closed_queue_stops_worker:
  assumes "closed q"
  shows "DissectorThread_loop q done = (done, Exited)"
  using assms by (subst DissectorThread_loop.simps) (simp add: PacketQueue_pop_def)

text \<open>
  C8. Destroying the session closes the packet queue first: of the calls the destructor
  makes, the close of the queue is the first, and the destruction of the dissector
  threads, of the filter groups, of the stream dispatcher and of the frame source all
  come after it. From the close on the queue stays closed, so that a dissector worker
  that asks the queue for a packet gets the closed signal and leaves its loop, and a
  push no longer adds a packet.
\<close>

theorem dtor_closes_queue_first:
  "drop (length (trace d)) (trace (Private_dtor d)) =
     [Queue_close, DissectorThreads_clear, FilterThreads_clear, StreamDispatcher_reset,
      Pcap_reset, Uv_close StatusCbAsync, Uv_close LogCbAsync]
   \<and> happens_before Queue_close DissectorThreads_clear
        (drop (length (trace d)) (trace (Private_dtor d)))
   \<and> happens_before Queue_close FilterThreads_clear
        (drop (length (trace d)) (trace (Private_dtor d)))
   \<and> happens_before Queue_close StreamDispatcher_reset
        (drop (length (trace d)) (trace (Private_dtor d)))
   \<and> happens_before Queue_close Pcap_reset
        (drop (length (trace d)) (trace (Private_dtor d)))
   \<and> queue (Private_dtor d) = PacketQueue_close (queue d)
   \<and> closed (queue (Private_dtor d))
   \<and> DissectorThread_loop (queue (Private_dtor d)) done = (done, Exited)
   \<and> PacketQueue_push pkt (queue (Private_dtor d)) = queue (Private_dtor d)
   \<and> dissectorThreads (Private_dtor d) = []
   \<and> filterThreads (Private_dtor d) = []
   \<and> streamDispatcher (Private_dtor d) = None
   \<and> pcap (Private_dtor d) = None"
proof -
  have tr: "trace (Private_dtor d) =
     trace d @ [Queue_close, DissectorThreads_clear, FilterThreads_clear,
                StreamDispatcher_reset, Pcap_reset, Uv_close StatusCbAsync,
                Uv_close LogCbAsync]"
    by (simp add: Private_dtor_def call_def)
  have q: "queue (Private_dtor d) = PacketQueue_close (queue d)"
    by (simp add: Private_dtor_def call_def)
  then have c: "closed (queue (Private_dtor d))"
    by (simp add: PacketQueue_close_def)
  have w: "DissectorThread_loop (queue (Private_dtor d)) done = (done, Exited)"
    using c by (rule closed_queue_stops_worker)
  have p: "PacketQueue_push pkt (queue (Private_dtor d)) = queue (Private_dtor d)"
    using c by (simp add: PacketQueue_push_def)
  have rest: "dissectorThreads (Private_dtor d) = [] \<and> filterThreads (Private_dtor d) = []
      \<and> streamDispatcher (Private_dtor d) = None \<and> pcap (Private_dtor d) = None"
    by (simp add: Private_dtor_def call_def)
  from tr q c w p rest show ?thesis by simp
qed

subsection \<open>Handing a packet to the pipeline\<close>

text \<open>
  C5, as the specification has it: a packet that already carries the namespace root layer
  is enqueued without a further layer. It fails on the example packet, which carries
  exactly that layer: the packet that reaches the queue has two layers.
\<close>

theorem analyze_wraps_again_counterexample:
  "has_namespace_root_layer example_session example_packet
   \<and> items (queue (Session_analyze example_packet example_session)) \<noteq> [example_packet]
   \<and> map (\<lambda>pkt. length (layers pkt))
        (items (queue (Session_analyze example_packet example_session))) = [2]"
  by (simp add: has_namespace_root_layer_def example_session_eq example_packet_def
      Session_analyze_def Packet_addLayer_def PacketQueue_push_def)

text \<open>
  C5, amended. For every packet, \<^verbatim>\<open>analyze\<close> appends a new layer to the packet, with
  the namespace of the session, the name "Raw Layer" and the payload of the packet,
  whether or not the packet already carries such a layer, and pushes the packet into the
  packet queue. Nothing else of the session changes. While the queue is open the packet
  becomes the last one of the queue; once the queue is closed the push adds nothing.
\<close>

theorem analyze_always_wraps:
  "Session_analyze pkt d =
     d\<lparr>queue := PacketQueue_push
         (pkt\<lparr>layers := layers pkt @
            [\<lparr>layer_ns = ns d, layer_name = ''Raw Layer'', layer_payload = payload pkt\<rparr>]\<rparr>)
         (queue d)\<rparr>
   \<and> items (queue (Session_analyze pkt d)) =
       (if closed (queue d) then items (queue d)
        else items (queue d) @
          [pkt\<lparr>layers := layers pkt @
            [\<lparr>layer_ns = ns d, layer_name = ''Raw Layer'', layer_payload = payload pkt\<rparr>]\<rparr>])
   \<and> closed (queue (Session_analyze pkt d)) = closed (queue d)"
  by (simp add: Session_analyze_def Packet_addLayer_def PacketQueue_push_def)

subsection \<open>Replacing a filter group\<close>

lemma map_of_insert_into:
  "map_of (map (\<lambda>(name, context). (name, insert_into c s context)) groups) n =
     map_option (insert_into c s) (map_of groups n)"
  by (induction groups) auto

lemma FilterThread_insert_lookup:
  "map_of (filterThreads (FilterThread_insert c s d)) n =
     (if c \<in> set (map (\<lambda>pair. ctx_id (fc_ctx (snd pair))) (filterThreads d))
      then map_option (insert_into c s) (map_of (filterThreads d) n)
      else map_of (filterThreads d) n)"
  by (simp add: FilterThread_insert_def uv_async_send_fields map_of_insert_into)

lemma FilterThread_insert_ctx_next: "ctx_next (FilterThread_insert c s d) = ctx_next d"
  by (simp add: FilterThread_insert_def uv_async_send_fields)

lemma insert_into_id: "ctx_id (fc_ctx (insert_into c s context)) = ctx_id (fc_ctx context)"
  by (simp add: insert_into_def)

lemma set_SequenceSet_insert: "set (SequenceSet_insert s xs) = insert s (set xs)"
  by (auto simp: SequenceSet_insert_def set_insort_key)

lemma insert_into_packets:
  "set (ctx_packets (fc_ctx (insert_into c s context))) =
     (if ctx_id (fc_ctx context) = c then insert s (set (ctx_packets (fc_ctx context)))
      else set (ctx_packets (fc_ctx context)))"
  by (simp add: insert_into_def set_SequenceSet_insert)

lemma Session_filter_lookup:
  "map_of (filterThreads (Session_filter name f d)) n =
     (if n = name
      then (if f \<noteq> []
            then Some \<lparr>fc_threads = for_emplace 0 (threads d) (FilterThread (ctx_next d)) [],
                       fc_ctx = \<lparr>ctx_id = ctx_next d, ctx_filter = f,
                                 ctx_script = filterScript d, ctx_packets = []\<rparr>\<rparr>
            else None)
      else map_of (filterThreads d) n)"
  by (simp add: Session_filter_groups update_conv' delete_conv')

lemma step_groups_unchanged:
  "filterThreads (step key (Analyze pkt) d) = filterThreads d"
  "filterThreads (step key (Log msg) d) = filterThreads d"
  "filterThreads (step key (PacketCb pkt) d) = filterThreads d"
  "filterThreads (step key (SetStatusCallback cb) d) = filterThreads d"
  "filterThreads (step key (SetLogCallback cb) d) = filterThreads d"
  "filterThreads (step key Start d) = filterThreads d"
  "filterThreads (step key Stop d) = filterThreads d"
  "filterThreads (step key StatusDelivery d) = filterThreads d"
  "filterThreads (step key LogDelivery d) = filterThreads d"
  "ctx_next (step key (Analyze pkt) d) = ctx_next d"
  "ctx_next (step key (Log msg) d) = ctx_next d"
  "ctx_next (step key (PacketCb pkt) d) = ctx_next d"
  "ctx_next (step key (SetStatusCallback cb) d) = ctx_next d"
  "ctx_next (step key (SetLogCallback cb) d) = ctx_next d"
  "ctx_next (step key Start d) = ctx_next d"
  "ctx_next (step key Stop d) = ctx_next d"
  "ctx_next (step key StatusDelivery d) = ctx_next d"
  "ctx_next (step key LogDelivery d) = ctx_next d"
  by (simp_all add: Session_analyze_def Let_def Private_log_def uv_async_send_fields
        packetCb_def statusCbAsync_handler_def logCbAsync_handler_def call_fields
        Session_setStatusCallback_def Session_setLogCallback_def Session_start_def
        Session_stop_def split: option.splits)

lemma ids_ok_step:
  assumes "ids_ok d"
  shows "ids_ok (step key e d)"
proof (cases e)
  case (Filter name f)
  have below: "ctx_id (fc_ctx g) < ctx_next d" if "map_of (filterThreads d) n = Some g"
    for n g using assms that unfolding ids_ok_def by blast
  have uniq: "n = n'"
    if "map_of (filterThreads d) n = Some g" "map_of (filterThreads d) n' = Some g'"
       "ctx_id (fc_ctx g) = ctx_id (fc_ctx g')"
    for n n' g g' using assms that unfolding ids_ok_def by blast
  show ?thesis
    unfolding ids_ok_def Filter step.simps
  proof (intro conjI allI impI)
    fix n g
    assume "map_of (filterThreads (Session_filter name f d)) n = Some g"
    then show "ctx_id (fc_ctx g) < ctx_next (Session_filter name f d)"
      using below [of n g]
      by (auto simp: Session_filter_lookup Session_filter_ctx_next split: if_splits)
  next
    fix n n' g g'
    assume "map_of (filterThreads (Session_filter name f d)) n = Some g"
      and "map_of (filterThreads (Session_filter name f d)) n' = Some g'"
      and "ctx_id (fc_ctx g) = ctx_id (fc_ctx g')"
    then show "n = n'"
      using below [of n g] below [of n' g'] uniq [of n g n' g']
      by (auto simp: Session_filter_lookup split: if_splits)
  qed
next
  case (FilterInsert c s)
  show ?thesis
    unfolding ids_ok_def FilterInsert step.simps
    using assms
    by (auto simp: FilterThread_insert_lookup FilterThread_insert_ctx_next insert_into_id
        ids_ok_def split: if_splits)
qed (use assms in \<open>simp_all add: ids_ok_def step_groups_unchanged del: step.simps\<close>)

lemma ids_ok_run: "ids_ok d \<Longrightarrow> ids_ok (run key evs d)"
  by (induction evs arbitrary: d) (simp_all add: run_def ids_ok_step)

lemma ids_ok_ctor: "ids_ok (Session_ctor uninit hc option)"
  by (cases option) (simp_all add: ids_ok_def Session_ctor_def Private_ctor_def Let_def)

lemma only_new_step:
  assumes "only_new name N S d"
  shows "only_new name N (\<lambda>c. S c \<union> inserted_into c e) (step key e d)"
proof (cases e)
  case (Filter n f)
  from assms have next_ok: "N \<le> ctx_next d"
    and old: "\<And>m g. map_of (filterThreads d) m = Some g \<Longrightarrow> N \<le> ctx_id (fc_ctx g)
                 \<Longrightarrow> set (ctx_packets (fc_ctx g)) \<subseteq> S (ctx_id (fc_ctx g))"
    and at_name: "\<And>g. map_of (filterThreads d) name = Some g \<Longrightarrow> N \<le> ctx_id (fc_ctx g)"
    unfolding only_new_def by blast+
  show ?thesis
    unfolding only_new_def Filter step.simps
  proof (intro conjI allI impI)
    show "N \<le> ctx_next (Session_filter n f d)"
      using next_ok by (simp add: Session_filter_ctx_next)
  next
    fix m g
    assume "map_of (filterThreads (Session_filter n f d)) m = Some g"
      and "N \<le> ctx_id (fc_ctx g)"
    then show "set (ctx_packets (fc_ctx g))
                 \<subseteq> S (ctx_id (fc_ctx g)) \<union> inserted_into (ctx_id (fc_ctx g)) (Filter n f)"
      using old [of m g] by (auto simp: Session_filter_lookup split: if_splits)
  next
    fix g
    assume "map_of (filterThreads (Session_filter n f d)) name = Some g"
    then show "N \<le> ctx_id (fc_ctx g)"
      using at_name [of g] next_ok by (auto simp: Session_filter_lookup split: if_splits)
  qed
next
  case (FilterInsert c s)
  from assms have next_ok: "N \<le> ctx_next d"
    and old: "\<And>m g. map_of (filterThreads d) m = Some g \<Longrightarrow> N \<le> ctx_id (fc_ctx g)
                 \<Longrightarrow> set (ctx_packets (fc_ctx g)) \<subseteq> S (ctx_id (fc_ctx g))"
    and at_name: "\<And>g. map_of (filterThreads d) name = Some g \<Longrightarrow> N \<le> ctx_id (fc_ctx g)"
    unfolding only_new_def by blast+
  have after: "\<exists>g0. map_of (filterThreads d) m = Some g0
                  \<and> ctx_id (fc_ctx g) = ctx_id (fc_ctx g0)
                  \<and> set (ctx_packets (fc_ctx g)) \<subseteq>
                      set (ctx_packets (fc_ctx g0)) \<union> (if ctx_id (fc_ctx g0) = c then {s} else {})"
    if "map_of (filterThreads (FilterThread_insert c s d)) m = Some g" for m g
    using that
    by (auto simp: FilterThread_insert_lookup insert_into_id insert_into_packets
        split: if_splits)
  show ?thesis
    unfolding only_new_def FilterInsert step.simps
  proof (intro conjI allI impI)
    show "N \<le> ctx_next (FilterThread_insert c s d)"
      using next_ok by (simp add: FilterThread_insert_ctx_next)
  next
    fix m g
    assume "map_of (filterThreads (FilterThread_insert c s d)) m = Some g"
      and big: "N \<le> ctx_id (fc_ctx g)"
    from after [OF this(1)] obtain g0 where
      g0: "map_of (filterThreads d) m = Some g0" "ctx_id (fc_ctx g) = ctx_id (fc_ctx g0)"
        "set (ctx_packets (fc_ctx g)) \<subseteq>
           set (ctx_packets (fc_ctx g0)) \<union> (if ctx_id (fc_ctx g0) = c then {s} else {})"
      by blast
    from old [OF g0(1)] big g0(2)
    have "set (ctx_packets (fc_ctx g0)) \<subseteq> S (ctx_id (fc_ctx g))" by simp
    moreover have "(if ctx_id (fc_ctx g0) = c then {s} else {})
                     \<subseteq> inserted_into (ctx_id (fc_ctx g)) (FilterInsert c s)"
      using g0(2) by auto
    ultimately show "set (ctx_packets (fc_ctx g))
        \<subseteq> S (ctx_id (fc_ctx g)) \<union> inserted_into (ctx_id (fc_ctx g)) (FilterInsert c s)"
      using g0(3) by blast
  next
    fix g
    assume "map_of (filterThreads (FilterThread_insert c s d)) name = Some g"
    from after [OF this] obtain g0 where
      "map_of (filterThreads d) name = Some g0" "ctx_id (fc_ctx g) = ctx_id (fc_ctx g0)"
      by blast
    with at_name [of g0] show "N \<le> ctx_id (fc_ctx g)" by simp
  qed
qed (use assms in \<open>simp_all add: only_new_def step_groups_unchanged del: step.simps\<close>)

lemma only_new_run:
  assumes "only_new name N S d"
  shows "only_new name N (\<lambda>c. S c \<union> (\<Union>e \<in> set evs. inserted_into c e)) (run key evs d)"
  using assms
proof (induction evs arbitrary: S d)
  case Nil
  then show ?case by (simp add: run_def)
next
  case (Cons e evs)
  from Cons.prems have "only_new name N (\<lambda>c. S c \<union> inserted_into c e) (step key e d)"
    by (rule only_new_step)
  from Cons.IH [OF this]
  show ?case by (simp add: run_def Un_assoc)
qed

lemma inserted_into_events:
  "(\<Union>e \<in> set evs. inserted_into c e) = {s. FilterInsert c s \<in> set evs}"
proof -
  have "x \<in> inserted_into c e \<longleftrightarrow> e = FilterInsert c x" for x e
    by (cases e) auto
  then show ?thesis by auto
qed

lemma SequenceSet_get_subset: "set (SequenceSet_get xs start end) \<subseteq> set xs"
  by (auto simp: SequenceSet_get_def)

lemma only_new_read:
  assumes "only_new name N S d" and "s \<in> set (Session_getFiltered name start end d)"
  shows "\<exists>g. map_of (filterThreads d) name = Some g \<and> N \<le> ctx_id (fc_ctx g)
             \<and> s \<in> S (ctx_id (fc_ctx g))"
proof (cases "map_of (filterThreads d) name")
  case None
  with assms(2) show ?thesis by (simp add: Session_getFiltered_def)
next
  case (Some g)
  with assms(1) have big: "N \<le> ctx_id (fc_ctx g)"
    and sub: "set (ctx_packets (fc_ctx g)) \<subseteq> S (ctx_id (fc_ctx g))"
    unfolding only_new_def by blast+
  from Some assms(2) have "s \<in> set (SequenceSet_get (ctx_packets (fc_ctx g)) start end)"
    by (simp add: Session_getFiltered_def)
  with SequenceSet_get_subset have "s \<in> set (ctx_packets (fc_ctx g))" by blast
  with Some big sub show ?thesis by blast
qed

lemma only_new_after_replacement:
  assumes "ids_ok d" and "f \<noteq> []"
  shows "only_new name (ctx_next d) (\<lambda>c. {}) (Session_filter name f d)"
proof -
  have below: "ctx_id (fc_ctx g) < ctx_next d" if "map_of (filterThreads d) n = Some g"
    for n g using assms(1) that unfolding ids_ok_def by blast
  show ?thesis
    unfolding only_new_def
  proof (intro conjI allI impI)
    show "ctx_next d \<le> ctx_next (Session_filter name f d)"
      by (simp add: Session_filter_ctx_next)
  next
    fix n g
    assume "map_of (filterThreads (Session_filter name f d)) n = Some g"
      and "ctx_next d \<le> ctx_id (fc_ctx g)"
    then show "set (ctx_packets (fc_ctx g)) \<subseteq> {}"
      using below [of n g] assms(2) by (auto simp: Session_filter_lookup split: if_splits)
  next
    fix g
    assume "map_of (filterThreads (Session_filter name f d)) name = Some g"
    then show "ctx_next d \<le> ctx_id (fc_ctx g)"
      using assms(2) by (auto simp: Session_filter_lookup)
  qed
qed

lemma Session_filter_trace:
  assumes "map_of (filterThreads d) name = Some old" and "f \<noteq> []"
  shows "trace (Session_filter name f d) =
           trace d @ [FilterContext_destroyed (ctx_id (fc_ctx old)),
                      FilterContext_constructed (ctx_next d), Uv_async_send StatusCbAsync]"
  using assms
  by (simp add: Session_filter_def Let_def uv_async_send_fields filterThreads_construct_def
      filterThreads_erase_def call_fields)





lemma example_running_fields:
  "filterThreads example_running =
     [(''udp'', \<lparr>fc_threads = [FilterThread 0, FilterThread 0],
               fc_ctx = \<lparr>ctx_id = 0, ctx_filter = ''udp'', ctx_script = ''script'',
                         ctx_packets = [2]\<rparr>\<rparr>)]"
  "ctx_next example_running = 1"
  "statusCb example_running = Some (JsFunction 1)"
  "logCb example_running = Some (JsFunction 2)"
  "store example_running = [example_packet]"
  "capturing example_running = True"
proof -
  have r: "replicate 2 x = [x, x]" for x :: FilterThread
    by (simp add: numeral_2_eq_2)
  show "filterThreads example_running =
     [(''udp'', \<lparr>fc_threads = [FilterThread 0, FilterThread 0],
               fc_ctx = \<lparr>ctx_id = 0, ctx_filter = ''udp'', ctx_script = ''script'',
                         ctx_packets = [2]\<rparr>\<rparr>)]"
    by (simp add: example_running_def run_def example_session_eq Session_setStatusCallback_def
        Session_start_def call_def Session_setLogCallback_def Session_filter_groups FilterThread_insert_def
        uv_async_send_fields packetCb_def insert_into_def SequenceSet_insert_def
        for_emplace_eq r)
  show "ctx_next example_running = 1"
    by (simp add: example_running_def run_def example_session_eq Session_setStatusCallback_def
        Session_start_def call_def Session_setLogCallback_def Session_filter_ctx_next FilterThread_insert_ctx_next
        uv_async_send_fields packetCb_def)
  show "statusCb example_running = Some (JsFunction 1)"
    by (simp add: example_running_def run_def example_session_eq Session_setStatusCallback_def
        Session_start_def call_def Session_setLogCallback_def Session_filter_def filterThreads_erase_def
        filterThreads_construct_def call_fields Let_def FilterThread_insert_def
        uv_async_send_fields packetCb_def)
  show "logCb example_running = Some (JsFunction 2)"
    by (simp add: example_running_def run_def example_session_eq Session_setStatusCallback_def
        Session_start_def call_def Session_setLogCallback_def Session_filter_def filterThreads_erase_def
        filterThreads_construct_def call_fields Let_def FilterThread_insert_def
        uv_async_send_fields packetCb_def)
  show "store example_running = [example_packet]"
    by (simp add: example_running_def run_def example_session_eq Session_setStatusCallback_def
        Session_start_def call_def Session_setLogCallback_def Session_filter_def filterThreads_erase_def
        filterThreads_construct_def call_fields Let_def FilterThread_insert_def
        uv_async_send_fields packetCb_def PacketStore_insert_def)
  show "capturing example_running = True"
    by (simp add: example_running_def run_def example_session_eq Session_setStatusCallback_def
        Session_start_def call_def Session_setLogCallback_def Session_filter_def filterThreads_erase_def
        filterThreads_construct_def call_fields Let_def FilterThread_insert_def
        uv_async_send_fields packetCb_def)
qed

text \<open>
  C1. For every filter name and every non-empty filter expression: when a group exists
  under the name, \<^verbatim>\<open>filter(name, expr)\<close> destroys the old group with its context
  before it constructs the new one (after the erase no group is left under the name and
  no group refers to the old context). The new group has a context of its own, distinct
  from the old one, with an empty result set, and all its workers belong to that context.
  A read right after the replacement returns nothing; and whatever happens afterwards,
  every sequence number a later \<^verbatim>\<open>getFiltered(name, start, end)\<close> returns was inserted
  after the replacement, by a worker of the context installed under the name at the time
  of the read, which is not the old context.
\<close>

theorem filter_replaces_group:
  fixes key :: "LogMessage \<Rightarrow> string" and history :: "event list"
    and uninit :: cint and hc :: uint32 and option :: option_value
  defines "d \<equiv> run key history (Session_ctor uninit hc option)"
  assumes "map_of (filterThreads d) name = Some old" and "f \<noteq> []"
  shows "drop (length (trace d)) (trace (Session_filter name f d)) =
           [FilterContext_destroyed (ctx_id (fc_ctx old)),
            FilterContext_constructed (ctx_next d), Uv_async_send StatusCbAsync]
    \<and> happens_before (FilterContext_destroyed (ctx_id (fc_ctx old)))
         (FilterContext_constructed (ctx_next d))
         (drop (length (trace d)) (trace (Session_filter name f d)))
    \<and> map_of (filterThreads (filterThreads_erase name d)) name = None
    \<and> (\<forall>n g. map_of (filterThreads (filterThreads_erase name d)) n = Some g \<longrightarrow>
          ctx_id (fc_ctx g) \<noteq> ctx_id (fc_ctx old))
    \<and> (\<exists>new. map_of (filterThreads (Session_filter name f d)) name = Some new
          \<and> ctx_id (fc_ctx new) = ctx_next d
          \<and> ctx_id (fc_ctx new) \<noteq> ctx_id (fc_ctx old)
          \<and> ctx_filter (fc_ctx new) = f
          \<and> ctx_packets (fc_ctx new) = []
          \<and> set (fc_threads new) \<subseteq> {FilterThread (ctx_next d)})
    \<and> Session_getFiltered name start end (Session_filter name f d) = []
    \<and> (\<forall>evs s. s \<in> set (Session_getFiltered name start end
                          (run key evs (Session_filter name f d))) \<longrightarrow>
          (\<exists>g. map_of (filterThreads (run key evs (Session_filter name f d))) name = Some g
             \<and> ctx_next d \<le> ctx_id (fc_ctx g)
             \<and> ctx_id (fc_ctx g) \<noteq> ctx_id (fc_ctx old)
             \<and> FilterInsert (ctx_id (fc_ctx g)) s \<in> set evs))"
proof -
  let ?d' = "Session_filter name f d"
  have ok: "ids_ok d"
    unfolding d_def by (intro ids_ok_run ids_ok_ctor)
  from ok assms(2) have old_below: "ctx_id (fc_ctx old) < ctx_next d"
    unfolding ids_ok_def by blast
  have tr: "trace ?d' = trace d @ [FilterContext_destroyed (ctx_id (fc_ctx old)),
                      FilterContext_constructed (ctx_next d), Uv_async_send StatusCbAsync]"
    using assms(2,3) by (rule Session_filter_trace)
  then have tr': "drop (length (trace d)) (trace ?d') =
           [FilterContext_destroyed (ctx_id (fc_ctx old)),
            FilterContext_constructed (ctx_next d), Uv_async_send StatusCbAsync]"
    by simp
  have hb: "happens_before (FilterContext_destroyed (ctx_id (fc_ctx old)))
         (FilterContext_constructed (ctx_next d)) (drop (length (trace d)) (trace ?d'))"
    by (simp add: tr')
  have gone: "map_of (filterThreads (filterThreads_erase name d)) name = None"
    by (simp add: filterThreads_erase_groups delete_conv')
  have unref: "ctx_id (fc_ctx g) \<noteq> ctx_id (fc_ctx old)"
    if "map_of (filterThreads (filterThreads_erase name d)) n = Some g" for n g
  proof
    assume same: "ctx_id (fc_ctx g) = ctx_id (fc_ctx old)"
    from that have "n \<noteq> name" and "map_of (filterThreads d) n = Some g"
      by (auto simp: filterThreads_erase_groups delete_conv' split: if_splits)
    with ok assms(2) same show False unfolding ids_ok_def by blast
  qed
  have new: "\<exists>new. map_of (filterThreads ?d') name = Some new
          \<and> ctx_id (fc_ctx new) = ctx_next d
          \<and> ctx_id (fc_ctx new) \<noteq> ctx_id (fc_ctx old)
          \<and> ctx_filter (fc_ctx new) = f
          \<and> ctx_packets (fc_ctx new) = []
          \<and> set (fc_threads new) \<subseteq> {FilterThread (ctx_next d)}"
    using assms(3) old_below
    by (auto simp: Session_filter_lookup for_emplace_eq)
  have now: "Session_getFiltered name start end ?d' = []"
    using assms(3) by (simp add: Session_getFiltered_def Session_filter_lookup SequenceSet_get_def)
  have later: "\<exists>g. map_of (filterThreads (run key evs ?d')) name = Some g
             \<and> ctx_next d \<le> ctx_id (fc_ctx g)
             \<and> ctx_id (fc_ctx g) \<noteq> ctx_id (fc_ctx old)
             \<and> FilterInsert (ctx_id (fc_ctx g)) s \<in> set evs"
    if "s \<in> set (Session_getFiltered name start end (run key evs ?d'))" for evs s
  proof -
    have "only_new name (ctx_next d) (\<lambda>c. {}) ?d'"
      using ok assms(3) by (rule only_new_after_replacement)
    then have "only_new name (ctx_next d) (\<lambda>c. {} \<union> (\<Union>e \<in> set evs. inserted_into c e))
                 (run key evs ?d')"
      by (rule only_new_run)
    from only_new_read [OF this that] obtain g where
      "map_of (filterThreads (run key evs ?d')) name = Some g"
      "ctx_next d \<le> ctx_id (fc_ctx g)"
      "s \<in> (\<Union>e \<in> set evs. inserted_into (ctx_id (fc_ctx g)) e)"
      by auto
    with old_below show ?thesis
      by (auto simp: inserted_into_events)
  qed
  from tr' hb gone unref new now later show ?thesis by blast
qed

theorem filter_replaces_group_witness:
  "Session_getFiltered ''udp'' 0 100 example_running = [2]
   \<and> Session_getFiltered ''udp'' 0 100 (Session_filter ''udp'' ''tcp'' example_running) = []
   \<and> 2 \<notin> set (Session_getFiltered ''udp'' 0 100
               (run message [FilterInsert 0 2, FilterInsert 1 4]
                  (Session_filter ''udp'' ''tcp'' example_running)))"
proof -
  let ?old = "\<lparr>fc_threads = [FilterThread 0, FilterThread 0],
               fc_ctx = \<lparr>ctx_id = 0, ctx_filter = ''udp'', ctx_script = ''script'',
                         ctx_packets = [2]\<rparr>\<rparr>"
  have h: "map_of (filterThreads example_running) ''udp'' = Some ?old"
    by (simp add: example_running_fields)
  have ne: "''tcp'' \<noteq> []" by simp
  note w = filter_replaces_group
    [where key = message and uninit = 0 and hc = 8
       and option = "OptionObject example_options"
       and history = "[SetStatusCallback (Some (JsFunction 1)), SetLogCallback (Some (JsFunction 2)),
               Start, Filter ''udp'' ''udp'', FilterInsert 0 2, PacketCb example_packet]",
     folded example_session_def, folded example_running_def, OF h ne,
     where start = 0 and ?end = 100]
  have before: "Session_getFiltered ''udp'' 0 100 example_running = [2]"
    by (simp add: Session_getFiltered_def example_running_fields SequenceSet_get_def)
  note now = w [THEN conjunct2, THEN conjunct2, THEN conjunct2, THEN conjunct2,
                THEN conjunct2, THEN conjunct1]
  note reads = w [THEN conjunct2, THEN conjunct2, THEN conjunct2, THEN conjunct2,
                  THEN conjunct2, THEN conjunct2, rule_format]
  have later: "2 \<notin> set (Session_getFiltered ''udp'' 0 100
               (run message [FilterInsert 0 2, FilterInsert 1 4]
                  (Session_filter ''udp'' ''tcp'' example_running)))"
  proof
    assume "2 \<in> set (Session_getFiltered ''udp'' 0 100
               (run message [FilterInsert 0 2, FilterInsert 1 4]
                  (Session_filter ''udp'' ''tcp'' example_running)))"
    from reads [OF this]
    have "\<exists>c. ctx_next example_running \<le> c
            \<and> FilterInsert c 2 \<in> set [FilterInsert 0 2, FilterInsert 1 4]"
      by (elim exE conjE, intro exI conjI)
    then show False by (simp add: example_running_fields)
  qed
  from before now later show ?thesis by blast
qed

subsection \<open>The log signal\<close>

lemma find_app:
  "find P (xs @ ys) = (case find P xs of None \<Rightarrow> find P ys | Some x \<Rightarrow> Some x)"
  by (induction xs) simp_all

lemma Private_log_fields:
  "recentLogs (Private_log key m d) = AList.update (key m) m (recentLogs d)"
  "logCb (Private_log key m d) = logCb d"
  by (simp_all add: Private_log_def uv_async_send_fields)

lemma run_Log_recentLogs:
  "recentLogs (run key (map Log ms) d) = fold (\<lambda>m. AList.update (key m) m) ms (recentLogs d)"
  by (induction ms arbitrary: d) (simp_all add: run_def Private_log_fields)

lemma run_Log_logCb: "logCb (run key (map Log ms) d) = logCb d"
  by (induction ms arbitrary: d) (simp_all add: run_def Private_log_fields)

lemma fold_update_distinct:
  "distinct (map fst al) \<Longrightarrow> distinct (map fst (fold (\<lambda>m. AList.update (key m) m) ms al))"
  by (induction ms arbitrary: al) (simp_all add: distinct_update)

lemma fold_update_latest:
  "map_of (fold (\<lambda>m. AList.update (key m) m) ms al) k =
     (case find (\<lambda>m. key m = k) (rev ms) of Some m \<Rightarrow> Some m | None \<Rightarrow> map_of al k)"
  by (induction ms arbitrary: al) (auto simp: update_conv' find_app split: option.splits)

lemma fold_update_keys:
  "fst ` set (fold (\<lambda>m. AList.update (key m) m) ms al) = key ` set ms \<union> fst ` set al"
  by (induction ms arbitrary: al) (auto simp: dom_update)

lemma fold_update_replicate:
  "fold (\<lambda>m. AList.update (key m) m) (replicate (Suc n) m) al = AList.update (key m) m al"
  by (induction n) simp_all

lemma logCbAsync_handler_delivery:
  assumes "logCb d = Some func"
  shows "fst (logCbAsync_handler d) = d\<lparr>logCbAsync := False, recentLogs := []\<rparr>"
    and "snd (logCbAsync_handler d) = map (\<lambda>pair. (func, log_object (snd pair))) (recentLogs d)"
  using assms by (simp_all add: logCbAsync_handler_def Let_def)

text \<open>
  C2. Take a delivery of the log callback, any sequence \<open>ms\<close> of log messages emitted after
  it, and the next delivery. The first delivery leaves the map of recent logs empty. The
  batch of the next delivery is one call for every entry of the map; the map has at most
  one entry for a key, the entry for a key is the latest message emitted under it, the
  batch has as many calls as keys were emitted, and this delivery empties the map again.
  Emitting a message several times in a row gives the same batch as emitting it once.
\<close>

theorem log_batch_deduplicated:
  fixes key :: "LogMessage \<Rightarrow> string"
  assumes "logCb d = Some func"
  defines "d1 \<equiv> fst (logCbAsync_handler d)"
  defines "batch \<equiv> \<lambda>ms. snd (logCbAsync_handler (run key (map Log ms) d1))"
  shows "recentLogs d1 = []
    \<and> batch ms = map (\<lambda>pair. (func, log_object (snd pair)))
                    (recentLogs (run key (map Log ms) d1))
    \<and> distinct (map fst (recentLogs (run key (map Log ms) d1)))
    \<and> map_of (recentLogs (run key (map Log ms) d1)) k = find (\<lambda>m. key m = k) (rev ms)
    \<and> length (batch ms) = card (key ` set ms)
    \<and> recentLogs (fst (logCbAsync_handler (run key (map Log ms) d1))) = []
    \<and> batch (ms1 @ replicate (Suc n) m @ ms2) = batch (ms1 @ [m] @ ms2)"
proof -
  have empty: "recentLogs d1 = []"
    using assms(1) by (simp add: d1_def logCbAsync_handler_delivery)
  have cb: "logCb (run key (map Log xs) d1) = Some func" for xs
    using assms(1) by (simp add: run_Log_logCb d1_def logCbAsync_handler_delivery)
  have logs: "recentLogs (run key (map Log xs) d1) = fold (\<lambda>m. AList.update (key m) m) xs []"
    for xs
    by (simp add: run_Log_recentLogs empty)
  have b: "batch xs = map (\<lambda>pair. (func, log_object (snd pair)))
                        (recentLogs (run key (map Log xs) d1))" for xs
    unfolding batch_def by (rule logCbAsync_handler_delivery(2) [OF cb])
  have dist: "distinct (map fst (recentLogs (run key (map Log ms) d1)))"
    by (simp add: logs fold_update_distinct)
  have latest: "map_of (recentLogs (run key (map Log ms) d1)) k
                  = find (\<lambda>m. key m = k) (rev ms)"
    by (simp add: logs fold_update_latest split: option.splits)
  have "length (recentLogs (run key (map Log ms) d1))
          = card (fst ` set (recentLogs (run key (map Log ms) d1)))"
    using dist by (metis distinct_card length_map set_map)
  then have count: "length (batch ms) = card (key ` set ms)"
    by (simp add: b logs fold_update_keys)
  have cleared: "recentLogs (fst (logCbAsync_handler (run key (map Log ms) d1))) = []"
    by (simp add: logCbAsync_handler_delivery(1) [OF cb])
  have "fold (\<lambda>m. AList.update (key m) m) (ms1 @ replicate (Suc n) m @ ms2) []
          = fold (\<lambda>m. AList.update (key m) m) (ms1 @ [m] @ ms2) []"
    by (simp only: fold_append o_apply fold_update_replicate) simp
  then have same: "batch (ms1 @ replicate (Suc n) m @ ms2) = batch (ms1 @ [m] @ ms2)"
    by (simp only: b logs)
  from empty b dist latest count cleared same show ?thesis by blast
qed

theorem log_batch_deduplicated_witness:
  "logCb example_running = Some (JsFunction 2)
   \<and> length (snd (logCbAsync_handler
        (run message (map Log [example_message, example_message, example_message])
           (fst (logCbAsync_handler example_running))))) = 1"
proof -
  have h: "logCb example_running = Some (JsFunction 2)"
    by (simp add: example_running_fields)
  from log_batch_deduplicated
         [OF h, of message "[example_message, example_message, example_message]"]
  have "length (snd (logCbAsync_handler
        (run message (map Log [example_message, example_message, example_message])
           (fst (logCbAsync_handler example_running)))))
        = card (message ` set [example_message, example_message, example_message])"
    by blast
  with h show ?thesis by simp
qed

subsection \<open>The status signal\<close>









end
